theory Spec2Isabelle
  imports Main
begin

section \<open>Data model of cmd\_backup.py\<close>

text \<open>
  The Python objects the command handles. An attribute that may hold \<open>None\<close> is an
  \<open>option\<close>; Python truthiness is written out where the source tests an object.
\<close>

record profile =
  timestamp :: int
  profile_data :: string

type_synonym credentials = string

record backup_record =
  backup_id :: string
  hbr_address :: string
  hbr_key :: string

text \<open>
  \<open>conf.profile\<close> holds either the text of \<open>--profile\<close> or the Profile object
  returned by \<open>get_profile\<close>.
\<close>

datatype profile_ref = ProfilePath string | ProfileObj profile

record conf =
  secretfile :: string
  simulate :: bool
  verbose :: bool
  profile :: "profile_ref option"
  address :: "string option"
  credentials :: "credentials option"
  volsize :: int
  s3_parallel_uploads :: int
  full_backup :: string
  backup_skip_files :: bool
  backup_skip_database :: bool
  backup_skip_packages :: bool
  overrides :: "string list"
  checkpoint_restore :: bool

record registry =
  reg_path_secret :: string
  reg_sub_apikey :: string
  reg_key :: string
  reg_profile :: "profile option"
  reg_credentials :: "credentials option"
  reg_hbr :: "backup_record option"
  reg_backup_resume_conf :: "conf option"

text \<open>
  Modelled from the spec: the classes of module \<open>hub\<close> are not in this file. Section 6
  of the specification gives a general Hub error with two distinguished subtypes, "not
  subscribed" and "invalid backup"; each carries its message.
\<close>

datatype hub_error =
    NotSubscribedError string
  | InvalidBackupError string
  | HubError string

fun str_hub_error :: "hub_error \<Rightarrow> string" where
  "str_hub_error (NotSubscribedError m) = m"
| "str_hub_error (InvalidBackupError m) = m"
| "str_hub_error (HubError m) = m"

datatype exn =
    HubExn hub_error
  | SystemExit nat
  | AttributeError string
  | OtherExn string

text \<open>Everything the run does that an observer outside the process can see, in order.\<close>

datatype event =
    Warning string
  | Error string
  | Usage
  | Print string
  | LockTaken
  | HubGetNewProfile string "int option"
  | HubGetCredentials
  | HubGetBackupRecord string
  | HubNewBackupRecord string string "string option"
  | HubSetBackupInprogress string bool
  | HubUpdatedBackup "string option"
  | SetProfile profile
  | SetCredentials credentials
  | SetHbr "backup_record option"
  | SetResumeConf "conf option"
  | EngineNew conf bool
  | EngineRun bool
  | EngineCleanup
  | HookPre
  | HookPost
  | TrapOpen
  | TrapClose
  | LogAppend string

text \<open>
  The collaborators (Hub client, engine, hooks, lock, file system, \<open>Conf()\<close>,
  \<open>get_turnkey_version\<close>, \<open>ServerConf\<close>) are not in this file: what each of them
  answers is a parameter of the run.
\<close>

record env =
  conf_init :: conf
  conf_int :: "string \<Rightarrow> int"
  path_exists :: "string \<Rightarrow> bool"
  is_writeable :: "string \<Rightarrow> bool"
  py_repr :: "string \<Rightarrow> string"
  lock_held :: bool
  turnkey_version :: string
  server_conf :: "string \<Rightarrow> string option"
  hub_get_new_profile :: "string \<Rightarrow> int option \<Rightarrow> hub_error + profile option"
  hub_get_credentials :: "hub_error + credentials"
  hub_get_backup_record :: "string \<Rightarrow> hub_error + backup_record"
  hub_new_backup_record :: "string \<Rightarrow> string \<Rightarrow> string option \<Rightarrow> hub_error + backup_record"
  hub_set_backup_inprogress :: "string \<Rightarrow> bool \<Rightarrow> hub_error option"
  hub_updated_backup :: "string option \<Rightarrow> hub_error option"
  engine_new :: "conf \<Rightarrow> bool \<Rightarrow> exn option"
  engine_run :: "conf \<Rightarrow> bool \<Rightarrow> bool \<Rightarrow> exn option"
  engine_cleanup :: "exn option"
  hooks_pre :: "exn option"
  hooks_post :: "exn option"
  log_append :: "string \<Rightarrow> exn option"

text \<open>
  The state a run threads through: the registry (a module-level singleton in the source),
  the trace of events so far, and whether the local \<open>trap\<close> holds a live capture.
\<close>

record state =
  reg :: registry
  trace :: "event list"
  trap :: bool

section \<open>Statements, exceptions, \<open>try\<close>\<close>

type_synonym 'a prog = "state \<Rightarrow> (exn + 'a) \<times> state"

definition ret :: "'a \<Rightarrow> 'a prog" where
  "ret x s = (Inr x, s)"

definition throw :: "exn \<Rightarrow> 'a prog" where
  "throw e s = (Inl e, s)"

definition bnd :: "'a prog \<Rightarrow> ('a \<Rightarrow> 'b prog) \<Rightarrow> 'b prog" where
  "bnd f g s = (case f s of (Inl e, s') \<Rightarrow> (Inl e, s') | (Inr x, s') \<Rightarrow> g x s')"

definition emit :: "event \<Rightarrow> unit prog" where
  "emit ev s = (Inr (), s\<lparr>trace := trace s @ [ev]\<rparr>)"

definition get_registry :: "registry prog" where
  "get_registry s = (Inr (reg s), s)"

definition if_then :: "bool \<Rightarrow> unit prog \<Rightarrow> unit prog" where
  "if_then b f = (if b then f else ret ())"

text \<open>\<open>try: body finally: fin\<close>: an exception of \<open>fin\<close> replaces the outcome of \<open>body\<close>.\<close>

definition try_finally :: "'a prog \<Rightarrow> unit prog \<Rightarrow> 'a prog" where
  "try_finally body fin s =
     (case body s of (r, s1) \<Rightarrow>
        (case fin s1 of (Inl e2, s2) \<Rightarrow> (Inl e2, s2) | (Inr _, s2) \<Rightarrow> (r, s2)))"

text \<open>\<open>try: body except: handler\<close> with a bare \<open>except\<close>.\<close>

definition try_except :: "'a prog \<Rightarrow> (exn \<Rightarrow> 'a prog) \<Rightarrow> 'a prog" where
  "try_except body handler s =
     (case body s of (Inl e, s1) \<Rightarrow> handler e s1 | (Inr x, s1) \<Rightarrow> (Inr x, s1))"

text \<open>The local \<open>trap\<close> of \<open>main\<close>: a live capture, or closed and set to \<open>None\<close>.\<close>

definition set_trap :: "bool \<Rightarrow> unit prog" where
  "set_trap b s = (Inr (), s\<lparr>trap := b\<rparr>)"

definition get_trap :: "bool prog" where
  "get_trap s = (Inr (trap s), s)"

text \<open>A call of a collaborator that returns nothing and may raise.\<close>

definition call :: "exn option \<Rightarrow> unit prog" where
  "call r = (case r of None \<Rightarrow> ret () | Some e \<Rightarrow> throw e)"

section \<open>Registry writes\<close>

definition set_reg_profile :: "profile \<Rightarrow> unit prog" where
  "set_reg_profile p s =
     (Inr (), s\<lparr>reg := (reg s)\<lparr>reg_profile := Some p\<rparr>, trace := trace s @ [SetProfile p]\<rparr>)"

definition set_reg_credentials :: "credentials \<Rightarrow> unit prog" where
  "set_reg_credentials c s =
     (Inr (), s\<lparr>reg := (reg s)\<lparr>reg_credentials := Some c\<rparr>,
                trace := trace s @ [SetCredentials c]\<rparr>)"

definition set_reg_hbr :: "backup_record option \<Rightarrow> unit prog" where
  "set_reg_hbr r s =
     (Inr (), s\<lparr>reg := (reg s)\<lparr>reg_hbr := r\<rparr>, trace := trace s @ [SetHbr r]\<rparr>)"

definition set_reg_backup_resume_conf :: "conf option \<Rightarrow> unit prog" where
  "set_reg_backup_resume_conf c s =
     (Inr (), s\<lparr>reg := (reg s)\<lparr>reg_backup_resume_conf := c\<rparr>,
                trace := trace s @ [SetResumeConf c]\<rparr>)"

section \<open>The helpers of the module\<close>

text \<open>\<open>usage(e)\<close>: the error line when \<open>e\<close> is given, the usage text, \<open>sys.exit(1)\<close>.\<close>

definition usage :: "string option \<Rightarrow> 'a prog" where
  "usage e =
     bnd (case e of None \<Rightarrow> ret () | Some m \<Rightarrow> emit (Error m)) (\<lambda>_.
     bnd (emit Usage) (\<lambda>_.
     throw (SystemExit 1)))"

definition warn :: "string \<Rightarrow> unit prog" where
  "warn e = emit (Warning e)"

definition fatal :: "string \<Rightarrow> 'a prog" where
  "fatal e = bnd (emit (Error e)) (\<lambda>_. throw (SystemExit 1))"

definition get_server_id :: "env \<Rightarrow> string option" where
  "get_server_id ev = server_conf ev ''serverid''"

text \<open>
  \<open>get_profile(hb)\<close>. The Hub answers a Profile or nothing; \<open>registry.profile\<close> is a
  Profile or \<open>None\<close>, and both are tested for truth.
\<close>

definition get_profile :: "env \<Rightarrow> profile option prog" where
  "get_profile ev =
     bnd get_registry (\<lambda>r.
     let profile_timestamp = (case reg_profile r of Some p \<Rightarrow> Some (timestamp p) | None \<Rightarrow> None);
         version = turnkey_version ev
     in
     bnd (emit (HubGetNewProfile version profile_timestamp)) (\<lambda>_.
     bnd (case hub_get_new_profile ev version profile_timestamp of
            Inr new_profile \<Rightarrow>
              (case new_profile of Some p \<Rightarrow> set_reg_profile p | None \<Rightarrow> ret ())
          | Inl e \<Rightarrow>
              (case reg_profile r of
                 None \<Rightarrow> throw (HubExn e)
               | Some _ \<Rightarrow>
                   warn (''using cached profile because of a Hub error: '' @ str_hub_error e)))
       (\<lambda>_.
     bnd get_registry (\<lambda>r'. ret (reg_profile r')))))"

section \<open>The option loop of \<open>main\<close>\<close>

text \<open>The locals of \<open>main\<close> that the option loop sets.\<close>

record vars =
  v_conf :: conf
  opt_debug :: bool
  opt_resume :: bool
  opt_logfile :: string

definition PATH_LOGFILE :: string where
  "PATH_LOGFILE = ''/var/log/tklbam-backup''"

definition upd_conf :: "(conf \<Rightarrow> conf) \<Rightarrow> vars \<Rightarrow> vars" where
  "upd_conf f vs = vs\<lparr>v_conf := f (v_conf vs)\<rparr>"

text \<open>
  One turn of \<open>for opt, val in opts\<close> (lines 168-216): the test for \<open>-s\<close> is an
  \<open>if\<close> of its own, the chain of \<open>elif\<close> starts at \<open>--resume\<close>.
\<close>

definition parse_opt :: "env \<Rightarrow> string \<times> string \<Rightarrow> vars \<Rightarrow> vars prog" where
  "parse_opt ev ov vs0 =
     (let opt = fst ov; val = snd ov;
          vs = (if opt = ''-s'' \<or> opt = ''--simulate''
                then upd_conf (\<lambda>c. c\<lparr>simulate := True\<rparr>) vs0 else vs0)
      in
      if opt = ''--resume'' then ret (vs\<lparr>opt_resume := True\<rparr>)
      else if opt = ''--profile'' then
        ret (upd_conf (\<lambda>c. c\<lparr>profile := Some (ProfilePath val)\<rparr>) vs)
      else if opt = ''-q'' \<or> opt = ''--quiet'' then
        ret (upd_conf (\<lambda>c. c\<lparr>verbose := False\<rparr>) vs)
      else if opt = ''--secretfile'' then
        (if \<not> path_exists ev val
         then usage (Some (''secretfile '' @ py_repr ev val @ '' does not exist''))
         else ret (upd_conf (\<lambda>c. c\<lparr>secretfile := val\<rparr>) vs))
      else if opt = ''--address'' then
        ret (upd_conf (\<lambda>c. c\<lparr>address := Some val\<rparr>) vs)
      else if opt = ''--volsize'' then
        ret (upd_conf (\<lambda>c. c\<lparr>volsize := conf_int ev val\<rparr>) vs)
      else if opt = ''--s3-parallel-uploads'' then
        ret (upd_conf (\<lambda>c. c\<lparr>s3_parallel_uploads := conf_int ev val\<rparr>) vs)
      else if opt = ''--full-backup'' then
        ret (upd_conf (\<lambda>c. c\<lparr>full_backup := val\<rparr>) vs)
      else if opt = ''--logfile'' then
        (if \<not> is_writeable ev val
         then fatal (''logfile '' @ [CHR 0x27] @ val @ [CHR 0x27] @ '' is not writeable'')
         else ret (vs\<lparr>opt_logfile := val\<rparr>))
      else if opt = ''--debug'' then ret (vs\<lparr>opt_debug := True\<rparr>)
      else if opt = ''--skip-files'' then
        ret (upd_conf (\<lambda>c. c\<lparr>backup_skip_files := True\<rparr>) vs)
      else if opt = ''--skip-database'' then
        ret (upd_conf (\<lambda>c. c\<lparr>backup_skip_database := True\<rparr>) vs)
      else if opt = ''--skip-packages'' then
        ret (upd_conf (\<lambda>c. c\<lparr>backup_skip_packages := True\<rparr>) vs)
      else if opt = ''-h'' \<or> opt = ''--help'' then usage None
      else ret vs)"

fun parse_opts :: "env \<Rightarrow> (string \<times> string) list \<Rightarrow> vars \<Rightarrow> vars prog" where
  "parse_opts ev [] vs = ret vs"
| "parse_opts ev (ov # rest) vs = bnd (parse_opt ev ov vs) (parse_opts ev rest)"

section \<open>Lock and Hub negotiation (lines 220-272)\<close>

definition lock_step :: "env \<Rightarrow> unit prog" where
  "lock_step ev =
     (if lock_held ev then fatal ''a previous backup is still in progress''
      else emit LockTaken)"

definition check_uploads :: "conf \<Rightarrow> unit prog" where
  "check_uploads c =
     if_then (s3_parallel_uploads c > 1 \<and> s3_parallel_uploads c > volsize c div 5)
       (warn ''s3-parallel-uploads > volsize / 5 (minimum upload chunk is 5MB)'')"

text \<open>Python truth of the two attributes of \<open>conf\<close> that \<open>main\<close> tests.\<close>

fun truthy_profile :: "profile_ref option \<Rightarrow> bool" where
  "truthy_profile None = False"
| "truthy_profile (Some (ProfilePath p)) = (p \<noteq> [])"
| "truthy_profile (Some (ProfileObj _)) = True"

fun truthy_address :: "string option \<Rightarrow> bool" where
  "truthy_address None = False"
| "truthy_address (Some a) = (a \<noteq> [])"

text \<open>Lines 231-232.\<close>

definition profile_step :: "env \<Rightarrow> conf \<Rightarrow> conf prog" where
  "profile_step ev c =
     (if \<not> truthy_profile (profile c)
      then bnd (get_profile ev) (\<lambda>p. ret (c\<lparr>profile := map_option ProfileObj p\<rparr>))
      else ret c)"

fun is_not_subscribed :: "hub_error \<Rightarrow> bool" where
  "is_not_subscribed (NotSubscribedError _) = True"
| "is_not_subscribed _ = False"

fun is_invalid_backup :: "hub_error \<Rightarrow> bool" where
  "is_invalid_backup (InvalidBackupError _) = True"
| "is_invalid_backup _ = False"

text \<open>Lines 235-249: the credentials.\<close>

definition credentials_step :: "env \<Rightarrow> conf \<Rightarrow> conf prog" where
  "credentials_step ev c =
     bnd (emit HubGetCredentials) (\<lambda>_.
     bnd (case hub_get_credentials ev of
            Inr cr \<Rightarrow> set_reg_credentials cr
          | Inl e \<Rightarrow>
              bnd (if is_not_subscribed e then fatal (str_hub_error e) else ret ()) (\<lambda>_.
              warn (str_hub_error e)))
       (\<lambda>_.
     bnd get_registry (\<lambda>r. ret (c\<lparr>credentials := reg_credentials r\<rparr>))))"

text \<open>Lines 251-272: the backup record.\<close>

definition backup_record_step :: "env \<Rightarrow> conf \<Rightarrow> conf prog" where
  "backup_record_step ev c =
     bnd get_registry (\<lambda>r.
     bnd (case reg_hbr r of
            None \<Rightarrow> ret ()
          | Some h \<Rightarrow>
              bnd (emit (HubGetBackupRecord (backup_id h))) (\<lambda>_.
              case hub_get_backup_record ev (backup_id h) of
                Inr h' \<Rightarrow> set_reg_hbr (Some h')
              | Inl e \<Rightarrow>
                  if is_invalid_backup e
                  then bnd (warn ''old backup record deleted, creating new ... '') (\<lambda>_.
                       set_reg_hbr None)
                  else warn (str_hub_error e)))
       (\<lambda>_.
     bnd get_registry (\<lambda>r1.
     bnd (case reg_hbr r1 of
            Some _ \<Rightarrow> ret ()
          | None \<Rightarrow>
              bnd (emit (HubNewBackupRecord (reg_key r1) (turnkey_version ev) (get_server_id ev)))
                (\<lambda>_.
              case hub_new_backup_record ev (reg_key r1) (turnkey_version ev) (get_server_id ev) of
                Inr h \<Rightarrow> set_reg_hbr (Some h)
              | Inl e \<Rightarrow> throw (HubExn e)))
       (\<lambda>_.
     bnd get_registry (\<lambda>r2.
     case reg_hbr r2 of
       Some h \<Rightarrow> ret (c\<lparr>address := Some (hbr_address h)\<rparr>)
     | None \<Rightarrow> throw (AttributeError ''address''))))))"

text \<open>Lines 234-272: both steps run only when \<open>conf.address\<close> is not true.\<close>

definition negotiate :: "env \<Rightarrow> conf \<Rightarrow> conf prog" where
  "negotiate ev c =
     (if \<not> truthy_address (address c)
      then bnd (credentials_step ev c) (backup_record_step ev)
      else ret c)"

section \<open>Session resolution (lines 274-293)\<close>

definition resolve_session :: "vars \<Rightarrow> vars prog" where
  "resolve_session vs =
     bnd (if opt_resume vs then
            (if simulate (v_conf vs) then fatal ''--resume and --simulate incompatible''
             else
               bnd get_registry (\<lambda>r.
               case reg_backup_resume_conf r of
                 None \<Rightarrow> fatal ''no previous backup session to resume from''
               | Some stored \<Rightarrow> ret (vs\<lparr>v_conf := stored\<rparr>)))
          else
            bnd get_registry (\<lambda>r.
            if \<not> simulate (v_conf vs) \<and> reg_backup_resume_conf r = Some (v_conf vs)
            then ret (vs\<lparr>opt_resume := True\<rparr>)
            else ret vs))
       (\<lambda>vs'.
     bnd (if_then (opt_resume vs') (emit (Print ''ATTEMPTING TO RESUME ABORTED SESSION'')))
       (\<lambda>_. ret vs'))"

text \<open>Lines 291-293.\<close>

definition rearm :: "conf \<Rightarrow> unit prog" where
  "rearm c =
     bnd (set_reg_backup_resume_conf None) (\<lambda>_.
     if_then (\<not> simulate c) (set_reg_backup_resume_conf (Some c)))"

section \<open>Running the engine (lines 295-342)\<close>

definition hub_call :: "hub_error option \<Rightarrow> unit prog" where
  "hub_call r = call (map_option HubExn r)"

text \<open>The body of the inner \<open>try\<close> (lines 302-311).\<close>

definition run_body :: "env \<Rightarrow> conf \<Rightarrow> bool \<Rightarrow> bool \<Rightarrow> bool \<Rightarrow> string \<Rightarrow> unit prog" where
  "run_body ev c resume debug is_hub_address bid =
     bnd (emit HookPre) (\<lambda>_.
     bnd (call (hooks_pre ev)) (\<lambda>_.
     bnd (if_then is_hub_address
            (bnd (emit (HubSetBackupInprogress bid True)) (\<lambda>_.
             hub_call (hub_set_backup_inprogress ev bid True)))) (\<lambda>_.
     bnd (if_then debug (bnd (emit TrapClose) (\<lambda>_. set_trap False))) (\<lambda>_.
     bnd (emit (EngineRun debug)) (\<lambda>_.
     bnd (call (engine_run ev c resume debug)) (\<lambda>_.
     bnd (emit HookPost) (\<lambda>_.
     call (hooks_post ev))))))))"

text \<open>
  The \<open>finally\<close> block (lines 313-326). Opening the log file and writing to it
  (lines 318-326) may raise.
\<close>

definition run_finally :: "env \<Rightarrow> bool \<Rightarrow> string \<Rightarrow> string \<Rightarrow> unit prog" where
  "run_finally ev is_hub_address bid logfile =
     bnd (if_then is_hub_address
            (bnd (emit (HubSetBackupInprogress bid False)) (\<lambda>_.
             hub_call (hub_set_backup_inprogress ev bid False)))) (\<lambda>_.
     bnd get_trap (\<lambda>t.
     if_then t
       (bnd (emit TrapClose) (\<lambda>_.
        bnd (emit (LogAppend logfile)) (\<lambda>_.
        call (log_append ev logfile))))))"

text \<open>Lines 300-326: the capture is opened, then \<open>try ... finally\<close>.\<close>

definition guarded_run ::
  "env \<Rightarrow> conf \<Rightarrow> bool \<Rightarrow> bool \<Rightarrow> string \<Rightarrow> bool \<Rightarrow> string \<Rightarrow> unit prog" where
  "guarded_run ev c resume debug logfile is_hub_address bid =
     bnd (emit TrapOpen) (\<lambda>_.
     bnd (set_trap True) (\<lambda>_.
     try_finally (run_body ev c resume debug is_hub_address bid)
                 (run_finally ev is_hub_address bid logfile)))"

text \<open>\<open>b.cleanup()\<close>, which may raise like any other call of the engine.\<close>

definition b_cleanup :: "env \<Rightarrow> unit prog" where
  "b_cleanup ev = bnd (emit EngineCleanup) (\<lambda>_. call (engine_cleanup ev))"

text \<open>
  Lines 299-332: the outer \<open>try ... except: ... raise\<close>. An exception of the cleanup
  leaves the handler in place of the one it caught.
\<close>

definition supervise ::
  "env \<Rightarrow> conf \<Rightarrow> bool \<Rightarrow> bool \<Rightarrow> string \<Rightarrow> bool \<Rightarrow> string \<Rightarrow> unit prog" where
  "supervise ev c resume debug logfile is_hub_address bid =
     try_except (guarded_run ev c resume debug logfile is_hub_address bid)
       (\<lambda>e. bnd (if_then (\<not> checkpoint_restore c) (b_cleanup ev)) (\<lambda>_. throw e))"

text \<open>Lines 334-342.\<close>

definition finish :: "env \<Rightarrow> conf \<Rightarrow> unit prog" where
  "finish ev c =
     bnd (if simulate c
          then emit (Print
            ''Completed --simulate: Leaving /TKLBAM intact so you can manually inspect it'')
          else b_cleanup ev) (\<lambda>_.
     bnd (set_reg_backup_resume_conf None) (\<lambda>_.
     if_then (\<not> simulate c)
       (bnd (emit (HubUpdatedBackup (address c))) (\<lambda>_.
        hub_call (hub_updated_backup ev (address c))))))"

text \<open>Line 295.\<close>

definition is_hub_address_of :: "conf \<Rightarrow> registry \<Rightarrow> bool" where
  "is_hub_address_of c r =
     (\<not> simulate c \<and>
      (case reg_hbr r of None \<Rightarrow> False | Some h \<Rightarrow> Some (hbr_address h) = address c))"

text \<open>Lines 299-342: the supervised run, then the code after it.\<close>

definition run_and_finish ::
  "env \<Rightarrow> conf \<Rightarrow> bool \<Rightarrow> bool \<Rightarrow> string \<Rightarrow> bool \<Rightarrow> string \<Rightarrow> unit prog" where
  "run_and_finish ev c resume debug logfile is_hub_address bid =
     bnd (supervise ev c resume debug logfile is_hub_address bid) (\<lambda>_. finish ev c)"

text \<open>
  Lines 295-342. \<open>registry.hbr.backup_id\<close> is read whether or not there is a record:
  on \<open>None\<close> the attribute access raises.
\<close>

definition run_session :: "env \<Rightarrow> vars \<Rightarrow> unit prog" where
  "run_session ev vs =
     (let c = v_conf vs in
      bnd get_registry (\<lambda>r.
      let is_hub_address = is_hub_address_of c r in
      bnd (case reg_hbr r of
             None \<Rightarrow> throw (AttributeError ''backup_id'')
           | Some h \<Rightarrow> ret (backup_id h)) (\<lambda>bid.
      bnd (emit (EngineNew c (opt_resume vs))) (\<lambda>_.
      bnd (call (engine_new ev c (opt_resume vs))) (\<lambda>_.
      run_and_finish ev c (opt_resume vs) (opt_debug vs) (opt_logfile vs)
        is_hub_address bid)))))"

section \<open>\<open>main\<close>\<close>

text \<open>Lines 161-293: everything \<open>main\<close> does before it looks at the backup id.\<close>

definition prepare :: "env \<Rightarrow> (string \<times> string) list \<Rightarrow> string list \<Rightarrow> vars prog" where
  "prepare ev opts args =
     bnd get_registry (\<lambda>r.
     bnd (parse_opts ev opts
            \<lparr>v_conf = (conf_init ev)\<lparr>secretfile := reg_path_secret r\<rparr>,
             opt_debug = False, opt_resume = False, opt_logfile = PATH_LOGFILE\<rparr>) (\<lambda>vs0.
     let vs = upd_conf (\<lambda>c. c\<lparr>overrides := overrides c @ args\<rparr>) vs0 in
     bnd (lock_step ev) (\<lambda>_.
     bnd (check_uploads (v_conf vs)) (\<lambda>_.
     bnd (profile_step ev (v_conf vs)) (\<lambda>c1.
     bnd (negotiate ev c1) (\<lambda>c2.
     bnd (resolve_session (vs\<lparr>v_conf := c2\<rparr>)) (\<lambda>vs'.
     bnd (rearm (v_conf vs')) (\<lambda>_.
     ret vs'))))))))"

text \<open>
  \<open>main\<close>, from the answer of \<open>getopt.gnu_getopt\<close>: its error message, or the options
  and the remaining arguments.
\<close>

definition main :: "env \<Rightarrow> string + (string \<times> string) list \<times> string list \<Rightarrow> unit prog" where
  "main ev argv =
     (case argv of
        Inl e \<Rightarrow> usage (Some e)
      | Inr (opts, args) \<Rightarrow> bnd (prepare ev opts args) (run_session ev))"

section \<open>Sample collaborators and registries\<close>

definition sample_conf :: conf where
  "sample_conf =
     \<lparr>secretfile = [], simulate = False, verbose = True, profile = None, address = None,
      credentials = None, volsize = 50, s3_parallel_uploads = 1, full_backup = ''1M'',
      backup_skip_files = False, backup_skip_database = False, backup_skip_packages = False,
      overrides = [], checkpoint_restore = False\<rparr>"

definition sample_profile :: profile where
  "sample_profile = \<lparr>timestamp = 100, profile_data = ''core''\<rparr>"

definition newer_profile :: profile where
  "newer_profile = \<lparr>timestamp = 200, profile_data = ''core''\<rparr>"

definition sample_hbr :: backup_record where
  "sample_hbr = \<lparr>backup_id = ''7'', hbr_address = ''s3://bucket/7'', hbr_key = ''k''\<rparr>"

definition fresh_hbr :: backup_record where
  "fresh_hbr = \<lparr>backup_id = ''8'', hbr_address = ''s3://bucket/8'', hbr_key = ''k''\<rparr>"

definition empty_registry :: registry where
  "empty_registry =
     \<lparr>reg_path_secret = ''/var/lib/tklbam/secret'', reg_sub_apikey = ''apikey'',
      reg_key = ''k'', reg_profile = None, reg_credentials = None, reg_hbr = None,
      reg_backup_resume_conf = None\<rparr>"

definition cached_registry :: registry where
  "cached_registry =
     empty_registry\<lparr>reg_profile := Some sample_profile, reg_credentials := Some ''cred'',
                     reg_hbr := Some sample_hbr\<rparr>"

definition start_state :: "registry \<Rightarrow> state" where
  "start_state r = \<lparr>reg = r, trace = [], trap = False\<rparr>"

text \<open>A Hub that answers every request, and an engine and hooks that succeed.\<close>

definition hub_up :: env where
  "hub_up =
     \<lparr>conf_init = sample_conf, conf_int = (\<lambda>_. 50), path_exists = (\<lambda>_. True),
      is_writeable = (\<lambda>_. True), py_repr = (\<lambda>v. v), lock_held = False,
      turnkey_version = ''turnkey-core-12.0'', server_conf = (\<lambda>_. None),
      hub_get_new_profile = (\<lambda>_ _. Inr (Some newer_profile)),
      hub_get_credentials = Inr ''cred2'',
      hub_get_backup_record = (\<lambda>_. Inr sample_hbr),
      hub_new_backup_record = (\<lambda>_ _ _. Inr fresh_hbr),
      hub_set_backup_inprogress = (\<lambda>_ _. None),
      hub_updated_backup = (\<lambda>_. None),
      engine_new = (\<lambda>_ _. None), engine_run = (\<lambda>_ _ _. None), engine_cleanup = None,
      hooks_pre = None, hooks_post = None, log_append = (\<lambda>_. None)\<rparr>"

text \<open>A Hub that cannot be reached: every request raises the general Hub error.\<close>

definition hub_down :: env where
  "hub_down =
     hub_up\<lparr>hub_get_new_profile := (\<lambda>_ _. Inl (HubError ''unreachable'')),
            hub_get_credentials := Inl (HubError ''unreachable''),
            hub_get_backup_record := (\<lambda>_. Inl (HubError ''unreachable'')),
            hub_new_backup_record := (\<lambda>_ _ _. Inl (HubError ''unreachable''))\<rparr>"

section \<open>What a statement leaves alone, and what it returns\<close>

text \<open>\<open>keeps obs m\<close>: running \<open>m\<close>, however it ends, does not change the view \<open>obs\<close> of the state.\<close>

definition keeps :: "(state \<Rightarrow> 'o) \<Rightarrow> 'a prog \<Rightarrow> bool" where
  "keeps obs m = (\<forall>s. obs (snd (m s)) = obs s)"

text \<open>\<open>returns m Q\<close>: whenever \<open>m\<close> ends without an exception, its value satisfies \<open>Q\<close>.\<close>

definition returns :: "'a prog \<Rightarrow> ('a \<Rightarrow> bool) \<Rightarrow> bool" where
  "returns m Q = (\<forall>s. case m s of (Inr x, _) \<Rightarrow> Q x | (Inl _, _) \<Rightarrow> True)"

text \<open>\<open>ends m Q\<close>: the same, with the state in which \<open>m\<close> ends.\<close>

definition ends :: "'a prog \<Rightarrow> ('a \<Rightarrow> state \<Rightarrow> bool) \<Rightarrow> bool" where
  "ends m Q = (\<forall>s. case m s of (Inr x, s') \<Rightarrow> Q x s' | (Inl _, _) \<Rightarrow> True)"

text \<open>\<open>fails m\<close>: \<open>m\<close> always ends by an exception.\<close>

definition fails :: "'a prog \<Rightarrow> bool" where
  "fails m = (\<forall>s. case m s of (Inr _, _) \<Rightarrow> False | (Inl _, _) \<Rightarrow> True)"

text \<open>The calls and registry writes of the credential and backup-record steps.\<close>

fun negotiation_event :: "event \<Rightarrow> bool" where
  "negotiation_event HubGetCredentials = True"
| "negotiation_event (HubGetBackupRecord _) = True"
| "negotiation_event (HubNewBackupRecord _ _ _) = True"
| "negotiation_event (SetCredentials _) = True"
| "negotiation_event (SetHbr _) = True"
| "negotiation_event _ = False"

definition negotiation_view ::
  "state \<Rightarrow> event list \<times> credentials option \<times> backup_record option" where
  "negotiation_view s =
     (filter negotiation_event (trace s), reg_credentials (reg s), reg_hbr (reg s))"

fun engine_new_event :: "event \<Rightarrow> bool" where
  "engine_new_event (EngineNew _ _) = True"
| "engine_new_event _ = False"

definition engine_view :: "state \<Rightarrow> event list" where
  "engine_view s = filter engine_new_event (trace s)"

text \<open>The in-progress notifications and the engine run, in the order they happen.\<close>

fun inprogress_or_run :: "event \<Rightarrow> bool" where
  "inprogress_or_run (HubSetBackupInprogress _ _) = True"
| "inprogress_or_run (EngineRun _) = True"
| "inprogress_or_run _ = False"

definition session_view :: "state \<Rightarrow> event list" where
  "session_view s = filter inprogress_or_run (trace s)"

text \<open>
  The exceptions of the supervised block of lines 300-326, read off the answers of the
  collaborators: the one an in-progress notification raises, the first one of the \<open>try\<close>
  body in the order of lines 302-311, and the one of the \<open>finally\<close> block, whose log
  append runs unless the body has closed the capture (line 307).
\<close>

definition inprogress_exn :: "env \<Rightarrow> bool \<Rightarrow> string \<Rightarrow> bool \<Rightarrow> exn option" where
  "inprogress_exn ev is_hub_address bid flag =
     (if is_hub_address then map_option HubExn (hub_set_backup_inprogress ev bid flag)
      else None)"

definition first_exn_of_body ::
  "env \<Rightarrow> conf \<Rightarrow> bool \<Rightarrow> bool \<Rightarrow> bool \<Rightarrow> string \<Rightarrow> exn option" where
  "first_exn_of_body ev c resume debug is_hub_address bid =
     (case hooks_pre ev of
        Some e \<Rightarrow> Some e
      | None \<Rightarrow>
          (case inprogress_exn ev is_hub_address bid True of
             Some e \<Rightarrow> Some e
           | None \<Rightarrow>
               (case engine_run ev c resume debug of
                  Some e \<Rightarrow> Some e
                | None \<Rightarrow> hooks_post ev)))"

definition capture_closed_by_body :: "env \<Rightarrow> bool \<Rightarrow> bool \<Rightarrow> string \<Rightarrow> bool" where
  "capture_closed_by_body ev debug is_hub_address bid =
     (debug \<and> hooks_pre ev = None \<and> inprogress_exn ev is_hub_address bid True = None)"

definition exn_of_finally ::
  "env \<Rightarrow> bool \<Rightarrow> bool \<Rightarrow> string \<Rightarrow> string \<Rightarrow> exn option" where
  "exn_of_finally ev debug is_hub_address bid logfile =
     (case inprogress_exn ev is_hub_address bid False of
        Some e \<Rightarrow> Some e
      | None \<Rightarrow>
          if capture_closed_by_body ev debug is_hub_address bid then None
          else log_append ev logfile)"

section \<open>More samples\<close>

definition hub_unsubscribed :: env where
  "hub_unsubscribed =
     hub_up\<lparr>hub_get_credentials := Inl (NotSubscribedError ''no subscription'')\<rparr>"

definition hub_invalid :: env where
  "hub_invalid =
     hub_up\<lparr>hub_get_backup_record := (\<lambda>_. Inl (InvalidBackupError ''no such backup''))\<rparr>"

definition engine_fails :: env where
  "engine_fails = hub_up\<lparr>engine_run := (\<lambda>_ _ _. Some (OtherExn ''duplicity failed''))\<rparr>"

text \<open>The engine fails, and so does the Hub when told the backup is no longer in progress.\<close>

definition engine_and_stop_fail :: env where
  "engine_and_stop_fail =
     engine_fails\<lparr>hub_set_backup_inprogress :=
       (\<lambda>_ flag. if flag then None else Some (HubError ''unreachable''))\<rparr>"

text \<open>The engine run returns and the post hook then fails.\<close>

definition post_hook_fails :: env where
  "post_hook_fails = hub_up\<lparr>hooks_post := Some (OtherExn ''hook failed'')\<rparr>"

definition cleanup_fails :: env where
  "cleanup_fails = hub_up\<lparr>engine_cleanup := Some (OtherExn ''cleanup failed'')\<rparr>"

definition stored_conf :: conf where
  "stored_conf = sample_conf\<lparr>address := Some ''s3://bucket/7'', volsize := 25\<rparr>"

definition resumable_registry :: registry where
  "resumable_registry = cached_registry\<lparr>reg_backup_resume_conf := Some stored_conf\<rparr>"

definition hub_conf :: conf where
  "hub_conf = sample_conf\<lparr>address := Some ''s3://bucket/7''\<rparr>"

definition sample_vars :: "conf \<Rightarrow> bool \<Rightarrow> vars" where
  "sample_vars c resume =
     \<lparr>v_conf = c, opt_debug = False, opt_resume = resume, opt_logfile = PATH_LOGFILE\<rparr>"

definition manual_opts :: "(string \<times> string) list" where
  "manual_opts = [(''--address'', ''file:///mnt/backup'')]"

section \<open>Unfolding the statements\<close>

lemmas prog_defs = ret_def throw_def bnd_def emit_def get_registry_def if_then_def
  try_finally_def try_except_def set_trap_def get_trap_def call_def hub_call_def
  set_reg_profile_def set_reg_credentials_def set_reg_hbr_def set_reg_backup_resume_conf_def
  usage_def warn_def fatal_def b_cleanup_def

lemmas sample_defs = sample_conf_def sample_profile_def newer_profile_def sample_hbr_def
  fresh_hbr_def empty_registry_def cached_registry_def start_state_def hub_up_def hub_down_def

section \<open>Rules for \<open>keeps\<close>, \<open>returns\<close> and \<open>fails\<close>\<close>

lemma returnsD: "returns m Q \<Longrightarrow> m s = (Inr x, s') \<Longrightarrow> Q x"
  by (auto simp: returns_def dest: spec[of _ s])

lemma returns_True: "returns f (\<lambda>_. True)"
  by (simp add: returns_def split: prod.splits sum.splits)

lemma returns_ret: "Q x \<Longrightarrow> returns (ret x) Q"
  by (simp add: returns_def ret_def)

lemma returns_throw: "returns (throw e) Q"
  by (simp add: returns_def throw_def)

lemma returns_bnd:
  assumes "returns f P" and "\<And>x. P x \<Longrightarrow> returns (g x) Q"
  shows "returns (bnd f g) Q"
  unfolding returns_def
proof
  fix s
  obtain r s1 where fs: "f s = (r, s1)" by (cases "f s")
  show "case bnd f g s of (Inr x, _) \<Rightarrow> Q x | (Inl _, _) \<Rightarrow> True"
  proof (cases r)
    case (Inl e)
    then show ?thesis using fs by (simp add: bnd_def)
  next
    case (Inr x)
    then have "P x" using assms(1) fs by (auto dest: returnsD)
    then have "returns (g x) Q" by (rule assms(2))
    then have "case g x s1 of (Inr y, _) \<Rightarrow> Q y | (Inl _, _) \<Rightarrow> True"
      by (simp add: returns_def)
    then show ?thesis using fs Inr by (simp add: bnd_def)
  qed
qed

lemma keeps_ret: "keeps obs (ret x)"
  by (simp add: keeps_def ret_def)

lemma keeps_throw: "keeps obs (throw e)"
  by (simp add: keeps_def throw_def)

lemma keeps_get_registry: "keeps obs get_registry"
  by (simp add: keeps_def get_registry_def)

lemma keeps_call: "keeps obs (call r)"
  by (simp add: keeps_def call_def ret_def throw_def split: option.splits)

lemma keeps_hub_call: "keeps obs (hub_call r)"
  by (simp add: hub_call_def keeps_call)

lemma keeps_bnd_returns:
  assumes "keeps obs f" and "returns f Q" and "\<And>x. Q x \<Longrightarrow> keeps obs (g x)"
  shows "keeps obs (bnd f g)"
  unfolding keeps_def
proof
  fix s
  obtain r s1 where fs: "f s = (r, s1)" by (cases "f s")
  have s1: "obs s1 = obs s" using assms(1) fs by (auto simp: keeps_def dest: spec[of _ s])
  show "obs (snd (bnd f g s)) = obs s"
  proof (cases r)
    case (Inl e)
    then show ?thesis using fs s1 by (simp add: bnd_def)
  next
    case (Inr x)
    then have "Q x" using assms(2) fs by (auto dest: returnsD)
    then have "obs (snd (g x s1)) = obs s1" using assms(3) by (simp add: keeps_def)
    then show ?thesis using fs Inr s1 by (simp add: bnd_def)
  qed
qed

lemma keeps_bnd: "keeps obs f \<Longrightarrow> (\<And>x. keeps obs (g x)) \<Longrightarrow> keeps obs (bnd f g)"
  by (rule keeps_bnd_returns[where Q="\<lambda>_. True"]) (simp_all add: returns_True)

lemma keeps_if_then: "keeps obs f \<Longrightarrow> keeps obs (if_then b f)"
  by (simp add: if_then_def keeps_ret)

lemma keeps_try_finally:
  assumes "keeps obs body" and "keeps obs fin"
  shows "keeps obs (try_finally body fin)"
  unfolding keeps_def
proof
  fix s
  obtain r s1 where b: "body s = (r, s1)" by (cases "body s")
  obtain r2 s2 where f: "fin s1 = (r2, s2)" by (cases "fin s1")
  have "obs s1 = obs s" using assms(1) b by (auto simp: keeps_def dest: spec[of _ s])
  moreover have "obs s2 = obs s1" using assms(2) f by (auto simp: keeps_def dest: spec[of _ s1])
  ultimately show "obs (snd (try_finally body fin s)) = obs s"
    using b f by (cases r2) (simp_all add: try_finally_def)
qed

lemma keeps_try_except:
  assumes "keeps obs body" and "\<And>e. keeps obs (h e)"
  shows "keeps obs (try_except body h)"
  unfolding keeps_def
proof
  fix s
  obtain r s1 where b: "body s = (r, s1)" by (cases "body s")
  have s1: "obs s1 = obs s" using assms(1) b by (auto simp: keeps_def dest: spec[of _ s])
  show "obs (snd (try_except body h s)) = obs s"
  proof (cases r)
    case (Inl e)
    have "obs (snd (h e s1)) = obs s1" using assms(2)[of e] by (simp add: keeps_def)
    then show ?thesis using b Inl s1 by (simp add: try_except_def)
  next
    case (Inr x)
    then show ?thesis using b s1 by (simp add: try_except_def)
  qed
qed

lemmas keeps_intros = keeps_ret keeps_throw keeps_get_registry keeps_call keeps_hub_call
  keeps_bnd keeps_if_then keeps_try_finally keeps_try_except

lemma fails_throw: "fails (throw e)"
  by (simp add: fails_def throw_def)

lemma fails_fatal: "fails (fatal m)"
  by (simp add: fails_def prog_defs)

lemma fails_bnd_left:
  assumes "fails f"
  shows "fails (bnd f g)"
  unfolding fails_def
proof
  fix s
  obtain r s1 where fs: "f s = (r, s1)" by (cases "f s")
  have "case f s of (Inr _, _) \<Rightarrow> False | (Inl _, _) \<Rightarrow> True"
    using assms by (simp add: fails_def)
  then obtain e where "r = Inl e" using fs by (cases r) simp_all
  then show "case bnd f g s of (Inr _, _) \<Rightarrow> False | (Inl _, _) \<Rightarrow> True"
    using fs by (simp add: bnd_def)
qed

lemma fails_bnd_returns:
  assumes "returns f Q" and "\<And>x. Q x \<Longrightarrow> fails (g x)"
  shows "fails (bnd f g)"
  unfolding fails_def
proof
  fix s
  obtain r s1 where fs: "f s = (r, s1)" by (cases "f s")
  show "case bnd f g s of (Inr _, _) \<Rightarrow> False | (Inl _, _) \<Rightarrow> True"
  proof (cases r)
    case (Inl e)
    then show ?thesis using fs by (simp add: bnd_def)
  next
    case (Inr x)
    then have "Q x" using assms(1) fs by (auto dest: returnsD)
    then have "fails (g x)" by (rule assms(2))
    then have "case g x s1 of (Inr _, _) \<Rightarrow> False | (Inl _, _) \<Rightarrow> True"
      by (simp add: fails_def)
    then show ?thesis using fs Inr by (simp add: bnd_def)
  qed
qed

lemma fails_bnd: "(\<And>x. fails (g x)) \<Longrightarrow> fails (bnd f g)"
  by (rule fails_bnd_returns[where Q="\<lambda>_. True"]) (simp_all add: returns_True)

lemma failsD: "fails m \<Longrightarrow> \<exists>e. fst (m s) = Inl e"
  by (cases "m s") (auto simp: fails_def split: sum.splits dest: spec[of _ s])

section \<open>The option loop\<close>

lemma parse_opt_address:
  "returns (parse_opt ev ov vs)
     (\<lambda>vs1. address (v_conf vs1) =
             (if fst ov = ''--address'' then Some (snd ov) else address (v_conf vs)))"
  by (simp add: returns_def parse_opt_def Let_def upd_conf_def prog_defs)

lemma parse_opt_simulate:
  "returns (parse_opt ev ov vs)
     (\<lambda>vs1. simulate (v_conf vs1) =
             (simulate (v_conf vs) \<or> fst ov = ''-s'' \<or> fst ov = ''--simulate''))"
  by (simp add: returns_def parse_opt_def Let_def upd_conf_def prog_defs)

lemma parse_opt_resume:
  "returns (parse_opt ev ov vs)
     (\<lambda>vs1. opt_resume vs1 = (opt_resume vs \<or> fst ov = ''--resume''))"
  by (simp add: returns_def parse_opt_def Let_def upd_conf_def prog_defs)

lemma parse_opts_step:
  assumes "parse_opts ev (ov # rest) vs s = (Inr vs1, s1)"
  obtains vs2 s2 where "parse_opt ev ov vs s = (Inr vs2, s2)"
    and "parse_opts ev rest vs2 s2 = (Inr vs1, s1)"
proof -
  obtain r s2 where st: "parse_opt ev ov vs s = (r, s2)" by (cases "parse_opt ev ov vs s")
  with assms obtain vs2 where "r = Inr vs2" and "parse_opts ev rest vs2 s2 = (Inr vs1, s1)"
    by (cases r) (auto simp: bnd_def)
  with st that show ?thesis by blast
qed

lemma parse_opts_address:
  "parse_opts ev opts vs s = (Inr vs1, s1) \<Longrightarrow>
   truthy_address (address (v_conf vs)) \<or> (\<exists>a. (''--address'', a) \<in> set opts) \<Longrightarrow>
   \<forall>a. (''--address'', a) \<in> set opts \<longrightarrow> a \<noteq> [] \<Longrightarrow>
   truthy_address (address (v_conf vs1))"
proof (induction opts arbitrary: vs s)
  case Nil
  then show ?case by (simp add: ret_def)
next
  case (Cons ov rest)
  from Cons.prems(1) obtain vs2 s2 where st: "parse_opt ev ov vs s = (Inr vs2, s2)"
    and rest: "parse_opts ev rest vs2 s2 = (Inr vs1, s1)"
    by (rule parse_opts_step)
  have addr: "address (v_conf vs2) =
                (if fst ov = ''--address'' then Some (snd ov) else address (v_conf vs))"
    using returnsD[OF parse_opt_address st] .
  have "truthy_address (address (v_conf vs2)) \<or> (\<exists>a. (''--address'', a) \<in> set rest)"
  proof (cases "fst ov = ''--address''")
    case True
    then have "ov = (''--address'', snd ov)" by (cases ov) simp
    then have "(''--address'', snd ov) \<in> set (ov # rest)" by simp
    then have "snd ov \<noteq> []" using Cons.prems(3) by blast
    then show ?thesis using addr True by simp
  next
    case False
    then have "\<And>a. ov \<noteq> (''--address'', a)" by auto
    then show ?thesis using Cons.prems(2) addr False by auto
  qed
  moreover have "\<forall>a. (''--address'', a) \<in> set rest \<longrightarrow> a \<noteq> []"
    using Cons.prems(3) by simp
  ultimately show ?case using Cons.IH[OF rest] by blast
qed

lemma parse_opts_flags:
  "parse_opts ev opts vs s = (Inr vs1, s1) \<Longrightarrow>
   (opt_resume vs1 = (opt_resume vs \<or> ''--resume'' \<in> fst ` set opts)) \<and>
   (simulate (v_conf vs1) =
      (simulate (v_conf vs) \<or> ''-s'' \<in> fst ` set opts \<or> ''--simulate'' \<in> fst ` set opts))"
proof (induction opts arbitrary: vs s)
  case Nil
  then show ?case by (simp add: ret_def)
next
  case (Cons ov rest)
  from Cons.prems(1) obtain vs2 s2 where st: "parse_opt ev ov vs s = (Inr vs2, s2)"
    and rest: "parse_opts ev rest vs2 s2 = (Inr vs1, s1)"
    by (rule parse_opts_step)
  have f1: "simulate (v_conf vs2) =
             (simulate (v_conf vs) \<or> fst ov = ''-s'' \<or> fst ov = ''--simulate'')"
    using returnsD[OF parse_opt_simulate st] .
  have f2: "opt_resume vs2 = (opt_resume vs \<or> fst ov = ''--resume'')"
    using returnsD[OF parse_opt_resume st] .
  have ih: "(opt_resume vs1 = (opt_resume vs2 \<or> ''--resume'' \<in> fst ` set rest)) \<and>
     (simulate (v_conf vs1) =
      (simulate (v_conf vs2) \<or> ''-s'' \<in> fst ` set rest \<or> ''--simulate'' \<in> fst ` set rest))"
    using Cons.IH[OF rest] .
  have m: "\<And>x. (x \<in> fst ` set (ov # rest)) = (fst ov = x \<or> x \<in> fst ` set rest)"
    by auto
  show ?case unfolding m using ih f1 f2 by blast
qed


lemma endsD: "ends m Q \<Longrightarrow> m s = (Inr x, s') \<Longrightarrow> Q x s'"
  by (auto simp: ends_def dest: spec[of _ s])

lemma ends_bnd:
  assumes "\<And>x. ends (g x) Q"
  shows "ends (bnd f g) Q"
  unfolding ends_def
proof
  fix s
  obtain r s1 where fs: "f s = (r, s1)" by (cases "f s")
  show "case bnd f g s of (Inr x, s') \<Rightarrow> Q x s' | (Inl _, _) \<Rightarrow> True"
  proof (cases r)
    case (Inl e)
    then show ?thesis using fs by (simp add: bnd_def)
  next
    case (Inr x)
    have "case g x s1 of (Inr y, s') \<Rightarrow> Q y s' | (Inl _, _) \<Rightarrow> True"
      using assms[of x] by (simp add: ends_def)
    then show ?thesis using fs Inr by (simp add: bnd_def)
  qed
qed

section \<open>What each block of \<open>main\<close> leaves alone\<close>

lemma neg_emit: "\<not> negotiation_event x \<Longrightarrow> keeps negotiation_view (emit x)"
  by (simp add: keeps_def negotiation_view_def emit_def)

lemma neg_prims:
  "keeps negotiation_view (set_trap b)"
  "keeps negotiation_view get_trap"
  "keeps negotiation_view (set_reg_profile p)"
  "keeps negotiation_view (set_reg_backup_resume_conf rc)"
  "keeps negotiation_view (warn m)"
  "keeps negotiation_view (fatal m)"
  "keeps negotiation_view (usage um)"
  by (simp_all add: keeps_def negotiation_view_def prog_defs split: option.splits)

lemma eng_emit: "\<not> engine_new_event x \<Longrightarrow> keeps engine_view (emit x)"
  by (simp add: keeps_def engine_view_def emit_def)

lemma eng_prims:
  "keeps engine_view (set_trap b)"
  "keeps engine_view get_trap"
  "keeps engine_view (set_reg_profile p)"
  "keeps engine_view (set_reg_credentials cr)"
  "keeps engine_view (set_reg_hbr h)"
  "keeps engine_view (set_reg_backup_resume_conf rc)"
  "keeps engine_view (warn m)"
  "keeps engine_view (fatal m)"
  "keeps engine_view (usage um)"
  by (simp_all add: keeps_def engine_view_def prog_defs split: option.splits)

lemma neg_b_cleanup: "keeps negotiation_view (b_cleanup ev)"
  by (auto simp: b_cleanup_def intro!: keeps_intros neg_emit)

lemma neg_get_profile: "keeps negotiation_view (get_profile ev)"
  by (auto simp: get_profile_def Let_def split: option.splits sum.splits
           intro!: keeps_intros neg_prims neg_emit)

lemma eng_get_profile: "keeps engine_view (get_profile ev)"
  by (auto simp: get_profile_def Let_def split: option.splits sum.splits
           intro!: keeps_intros eng_prims eng_emit)

lemma neg_parse_opt: "keeps negotiation_view (parse_opt ev ov vs)"
  by (auto simp: parse_opt_def Let_def intro!: keeps_intros neg_prims)

lemma eng_parse_opt: "keeps engine_view (parse_opt ev ov vs)"
  by (auto simp: parse_opt_def Let_def intro!: keeps_intros eng_prims)

lemma neg_parse_opts: "keeps negotiation_view (parse_opts ev opts vs)"
  by (induction opts arbitrary: vs) (auto intro!: keeps_intros neg_parse_opt)

lemma eng_parse_opts: "keeps engine_view (parse_opts ev opts vs)"
  by (induction opts arbitrary: vs) (auto intro!: keeps_intros eng_parse_opt)

lemma neg_lock_step: "keeps negotiation_view (lock_step ev)"
  by (auto simp: lock_step_def intro!: keeps_intros neg_prims neg_emit)

lemma eng_lock_step: "keeps engine_view (lock_step ev)"
  by (auto simp: lock_step_def intro!: keeps_intros eng_prims eng_emit)

lemma neg_check_uploads: "keeps negotiation_view (check_uploads c)"
  by (auto simp: check_uploads_def intro!: keeps_intros neg_prims)

lemma eng_check_uploads: "keeps engine_view (check_uploads c)"
  by (auto simp: check_uploads_def intro!: keeps_intros eng_prims)

lemma neg_profile_step: "keeps negotiation_view (profile_step ev c)"
  by (auto simp: profile_step_def intro!: keeps_intros neg_get_profile)

lemma eng_profile_step: "keeps engine_view (profile_step ev c)"
  by (auto simp: profile_step_def intro!: keeps_intros eng_get_profile)

lemma eng_credentials_step: "keeps engine_view (credentials_step ev c)"
  by (auto simp: credentials_step_def split: sum.splits
           intro!: keeps_intros eng_prims eng_emit)

lemma eng_backup_record_step: "keeps engine_view (backup_record_step ev c)"
  by (auto simp: backup_record_step_def split: sum.splits option.splits
           intro!: keeps_intros eng_prims eng_emit)

lemma eng_negotiate: "keeps engine_view (negotiate ev c)"
  by (auto simp: negotiate_def
           intro!: keeps_intros eng_credentials_step eng_backup_record_step)

lemma neg_resolve_session: "keeps negotiation_view (resolve_session vs)"
  by (auto simp: resolve_session_def split: option.splits
           intro!: keeps_intros neg_prims neg_emit)

lemma eng_resolve_session: "keeps engine_view (resolve_session vs)"
  by (auto simp: resolve_session_def split: option.splits
           intro!: keeps_intros eng_prims eng_emit)

lemma neg_rearm: "keeps negotiation_view (rearm c)"
  by (auto simp: rearm_def intro!: keeps_intros neg_prims)

lemma eng_rearm: "keeps engine_view (rearm c)"
  by (auto simp: rearm_def intro!: keeps_intros eng_prims)

lemma neg_run_body: "keeps negotiation_view (run_body ev c resume debug iha bid)"
  by (auto simp: run_body_def intro!: keeps_intros neg_prims neg_emit)

lemma neg_run_finally: "keeps negotiation_view (run_finally ev iha bid logfile)"
  by (auto simp: run_finally_def intro!: keeps_intros neg_prims neg_emit)

lemma neg_guarded_run: "keeps negotiation_view (guarded_run ev c resume debug logfile iha bid)"
  by (auto simp: guarded_run_def
           intro!: keeps_intros neg_prims neg_emit neg_run_body neg_run_finally)

lemma neg_supervise: "keeps negotiation_view (supervise ev c resume debug logfile iha bid)"
  by (auto simp: supervise_def intro!: keeps_intros neg_b_cleanup neg_guarded_run)

lemma neg_finish: "keeps negotiation_view (finish ev c)"
  by (auto simp: finish_def intro!: keeps_intros neg_prims neg_emit neg_b_cleanup)

lemma neg_run_session: "keeps negotiation_view (run_session ev vs)"
  by (auto simp: run_session_def run_and_finish_def Let_def split: option.splits
           intro!: keeps_intros neg_emit neg_supervise neg_finish)

section \<open>From the options to the session\<close>

lemma returns_profile_step:
  "returns (profile_step ev c)
     (\<lambda>c1. address c1 = address c \<and> simulate c1 = simulate c)"
  by (simp add: returns_def profile_step_def bnd_def ret_def split: prod.splits sum.splits)

lemma returns_credentials_step:
  "returns (credentials_step ev c) (\<lambda>c1. simulate c1 = simulate c)"
  by (simp add: returns_def credentials_step_def prog_defs split: prod.splits sum.splits)

lemma returns_backup_record_step:
  "returns (backup_record_step ev c) (\<lambda>c1. simulate c1 = simulate c)"
  by (simp add: returns_def backup_record_step_def prog_defs
           split: prod.splits sum.splits option.splits)

lemma returns_negotiate: "returns (negotiate ev c) (\<lambda>c1. simulate c1 = simulate c)"
proof (cases "truthy_address (address c)")
  case True
  then show ?thesis by (simp add: negotiate_def returns_ret)
next
  case False
  have "returns (bnd (credentials_step ev c) (backup_record_step ev))
          (\<lambda>c1. simulate c1 = simulate c)"
  proof (rule returns_bnd[OF returns_credentials_step])
    fix x :: conf
    assume "simulate x = simulate c"
    then show "returns (backup_record_step ev x) (\<lambda>c1. simulate c1 = simulate c)"
      using returns_backup_record_step[of ev x] by simp
  qed
  with False show ?thesis by (simp add: negotiate_def)
qed

lemma negotiate_skipped: "truthy_address (address c) \<Longrightarrow> negotiate ev c = ret c"
  by (simp add: negotiate_def)

lemma resolve_session_fails:
  "opt_resume vs \<Longrightarrow> simulate (v_conf vs) \<Longrightarrow> fails (resolve_session vs)"
  by (simp add: fails_def resolve_session_def prog_defs)

text \<open>The locals at the start of the option loop (lines 161-166).\<close>

lemma returns_parse_address:
  assumes "(''--address'', a) \<in> set opts"
    and "\<forall>v. (''--address'', v) \<in> set opts \<longrightarrow> v \<noteq> []"
  shows "returns (parse_opts ev opts vs) (\<lambda>vs1. truthy_address (address (v_conf vs1)))"
  unfolding returns_def
proof
  fix s
  show "case parse_opts ev opts vs s of
          (Inr vs1, _) \<Rightarrow> truthy_address (address (v_conf vs1)) | (Inl _, _) \<Rightarrow> True"
  proof (cases "parse_opts ev opts vs s")
    case (Pair r s1)
    show ?thesis
    proof (cases r)
      case (Inl e)
      with Pair show ?thesis by simp
    next
      case (Inr vs1)
      with Pair have "parse_opts ev opts vs s = (Inr vs1, s1)" by simp
      from parse_opts_address[OF this] assms have "truthy_address (address (v_conf vs1))"
        by blast
      with Pair Inr show ?thesis by simp
    qed
  qed
qed

lemma returns_parse_flags:
  assumes "(''--resume'', v) \<in> set opts"
    and "(''-s'', w) \<in> set opts \<or> (''--simulate'', w) \<in> set opts"
  shows "returns (parse_opts ev opts vs) (\<lambda>vs1. opt_resume vs1 \<and> simulate (v_conf vs1))"
  unfolding returns_def
proof
  fix s
  have r: "''--resume'' \<in> fst ` set opts" using assms(1) by force
  have m: "''-s'' \<in> fst ` set opts \<or> ''--simulate'' \<in> fst ` set opts"
    using assms(2) by force
  show "case parse_opts ev opts vs s of
          (Inr vs1, _) \<Rightarrow> opt_resume vs1 \<and> simulate (v_conf vs1) | (Inl _, _) \<Rightarrow> True"
  proof (cases "parse_opts ev opts vs s")
    case (Pair r1 s1)
    show ?thesis
    proof (cases r1)
      case (Inl e)
      with Pair show ?thesis by simp
    next
      case (Inr vs1)
      with Pair have "parse_opts ev opts vs s = (Inr vs1, s1)" by simp
      from parse_opts_flags[OF this] r m have "opt_resume vs1 \<and> simulate (v_conf vs1)"
        by blast
      with Pair Inr show ?thesis by simp
    qed
  qed
qed

lemma prepare_keeps_engine: "keeps engine_view (prepare ev opts args)"
  by (auto simp: prepare_def Let_def
           intro!: keeps_intros eng_parse_opts eng_lock_step eng_check_uploads
                   eng_profile_step eng_negotiate eng_resolve_session eng_rearm)

lemma prepare_keeps_negotiation:
  assumes "(''--address'', a) \<in> set opts"
    and "\<forall>v. (''--address'', v) \<in> set opts \<longrightarrow> v \<noteq> []"
  shows "keeps negotiation_view (prepare ev opts args)"
  unfolding prepare_def
proof (rule keeps_bnd[OF keeps_get_registry],
       rule keeps_bnd_returns[OF neg_parse_opts returns_parse_address[OF assms]])
  fix r :: registry and vs0 :: vars
  assume t: "truthy_address (address (v_conf vs0))"
  let ?vs = "upd_conf (\<lambda>c. c\<lparr>overrides := overrides c @ args\<rparr>) vs0"
  have t': "truthy_address (address (v_conf ?vs))" using t by (simp add: upd_conf_def)
  have "keeps negotiation_view
          (bnd (profile_step ev (v_conf ?vs)) (\<lambda>c1.
           bnd (negotiate ev c1) (\<lambda>c2.
           bnd (resolve_session (?vs\<lparr>v_conf := c2\<rparr>)) (\<lambda>vs'.
           bnd (rearm (v_conf vs')) (\<lambda>_. ret vs')))))"
  proof (rule keeps_bnd_returns[OF neg_profile_step returns_profile_step])
    fix c1 :: conf
    assume "address c1 = address (v_conf ?vs) \<and> simulate c1 = simulate (v_conf ?vs)"
    then have "truthy_address (address c1)" using t' by simp
    then show "keeps negotiation_view
          (bnd (negotiate ev c1) (\<lambda>c2.
           bnd (resolve_session (?vs\<lparr>v_conf := c2\<rparr>)) (\<lambda>vs'.
           bnd (rearm (v_conf vs')) (\<lambda>_. ret vs'))))"
      by (auto simp: negotiate_skipped
               intro!: keeps_intros neg_resolve_session neg_rearm)
  qed
  then show "keeps negotiation_view
     (let vs = ?vs in
      bnd (lock_step ev) (\<lambda>_.
      bnd (check_uploads (v_conf vs)) (\<lambda>_.
      bnd (profile_step ev (v_conf vs)) (\<lambda>c1.
      bnd (negotiate ev c1) (\<lambda>c2.
      bnd (resolve_session (vs\<lparr>v_conf := c2\<rparr>)) (\<lambda>vs'.
      bnd (rearm (v_conf vs')) (\<lambda>_. ret vs')))))))"
    by (auto simp: Let_def intro!: keeps_intros neg_lock_step neg_check_uploads)
qed

lemma prepare_fails:
  assumes "(''--resume'', v) \<in> set opts"
    and "(''-s'', w) \<in> set opts \<or> (''--simulate'', w) \<in> set opts"
  shows "fails (prepare ev opts args)"
  unfolding prepare_def
proof (rule fails_bnd, rule fails_bnd_returns[OF returns_parse_flags[OF assms]])
  fix r :: registry and vs0 :: vars
  assume f: "opt_resume vs0 \<and> simulate (v_conf vs0)"
  let ?vs = "upd_conf (\<lambda>c. c\<lparr>overrides := overrides c @ args\<rparr>) vs0"
  have f': "opt_resume ?vs" "simulate (v_conf ?vs)" using f by (simp_all add: upd_conf_def)
  have "fails
          (bnd (profile_step ev (v_conf ?vs)) (\<lambda>c1.
           bnd (negotiate ev c1) (\<lambda>c2.
           bnd (resolve_session (?vs\<lparr>v_conf := c2\<rparr>)) (\<lambda>vs'.
           bnd (rearm (v_conf vs')) (\<lambda>_. ret vs')))))"
  proof (rule fails_bnd_returns[OF returns_profile_step])
    fix c1 :: conf
    assume "address c1 = address (v_conf ?vs) \<and> simulate c1 = simulate (v_conf ?vs)"
    then have s1: "simulate c1" using f' by simp
    show "fails
          (bnd (negotiate ev c1) (\<lambda>c2.
           bnd (resolve_session (?vs\<lparr>v_conf := c2\<rparr>)) (\<lambda>vs'.
           bnd (rearm (v_conf vs')) (\<lambda>_. ret vs'))))"
    proof (rule fails_bnd_returns[OF returns_negotiate])
      fix c2 :: conf
      assume "simulate c2 = simulate c1"
      then have "fails (resolve_session (?vs\<lparr>v_conf := c2\<rparr>))"
        using s1 f' by (intro resolve_session_fails) simp_all
      then show "fails (bnd (resolve_session (?vs\<lparr>v_conf := c2\<rparr>)) (\<lambda>vs'.
           bnd (rearm (v_conf vs')) (\<lambda>_. ret vs')))"
        by (rule fails_bnd_left)
    qed
  qed
  then show "fails
     (let vs = ?vs in
      bnd (lock_step ev) (\<lambda>_.
      bnd (check_uploads (v_conf vs)) (\<lambda>_.
      bnd (profile_step ev (v_conf vs)) (\<lambda>c1.
      bnd (negotiate ev c1) (\<lambda>c2.
      bnd (resolve_session (vs\<lparr>v_conf := c2\<rparr>)) (\<lambda>vs'.
      bnd (rearm (v_conf vs')) (\<lambda>_. ret vs')))))))"
    by (auto simp: Let_def intro!: fails_bnd)
qed

lemma prepare_rearmed:
  "ends (prepare ev opts args)
     (\<lambda>vs s1. reg_backup_resume_conf (reg s1) =
                (if simulate (v_conf vs) then None else Some (v_conf vs)))"
  unfolding prepare_def Let_def
  by (rule ends_bnd, rule ends_bnd, rule ends_bnd, rule ends_bnd, rule ends_bnd,
      rule ends_bnd, rule ends_bnd)
     (simp add: ends_def rearm_def prog_defs)

lemma main_bnd:
  "main ev (Inr (opts, args)) s =
     (case prepare ev opts args s of
        (Inl e, s1) \<Rightarrow> (Inl e, s1)
      | (Inr vs, s1) \<Rightarrow> run_session ev vs s1)"
  by (simp add: main_def bnd_def)

lemma run_session_no_record:
  "reg_hbr (reg s) = None \<Longrightarrow> run_session ev vs s = (Inl (AttributeError ''backup_id''), s)"
  by (simp add: run_session_def Let_def prog_defs)

section \<open>The notifications around the engine run\<close>

lemma snd_try_finally: "snd (try_finally body fin s) = snd (fin (snd (body s)))"
  by (simp add: try_finally_def split: prod.splits sum.splits)

lemma run_body_view:
  "session_view (snd (run_body ev c resume debug iha bid s)) =
     session_view s @
     (if hooks_pre ev = None
      then (if iha
            then HubSetBackupInprogress bid True #
                 (if hub_set_backup_inprogress ev bid True = None
                  then [EngineRun debug] else [])
            else [EngineRun debug])
      else [])"
  by (simp add: session_view_def run_body_def prog_defs split: option.splits)

lemma run_finally_view:
  "session_view (snd (run_finally ev iha bid logfile s)) =
     session_view s @ (if iha then [HubSetBackupInprogress bid False] else [])"
  by (simp add: session_view_def run_finally_def prog_defs split: option.splits)

lemma guarded_run_view:
  "session_view (snd (guarded_run ev c resume debug logfile iha bid s)) =
     session_view s @
     (if hooks_pre ev = None
      then (if iha
            then HubSetBackupInprogress bid True #
                 (if hub_set_backup_inprogress ev bid True = None
                  then [EngineRun debug] else [])
            else [EngineRun debug])
      else []) @
     (if iha then [HubSetBackupInprogress bid False] else [])"
proof -
  let ?s1 = "s\<lparr>trace := trace s @ [TrapOpen], trap := True\<rparr>"
  have g: "guarded_run ev c resume debug logfile iha bid s =
        try_finally (run_body ev c resume debug iha bid) (run_finally ev iha bid logfile) ?s1"
    by (simp add: guarded_run_def bnd_def emit_def set_trap_def)
  have "session_view ?s1 = session_view s" by (simp add: session_view_def)
  then show ?thesis
    unfolding g snd_try_finally run_finally_view run_body_view by simp
qed

lemma session_emit: "\<not> inprogress_or_run x \<Longrightarrow> keeps session_view (emit x)"
  by (simp add: keeps_def session_view_def emit_def)

lemma session_set_resume: "keeps session_view (set_reg_backup_resume_conf rc)"
  by (simp add: keeps_def session_view_def set_reg_backup_resume_conf_def)

lemma session_b_cleanup: "keeps session_view (b_cleanup ev)"
  by (auto simp: b_cleanup_def intro!: keeps_intros session_emit)

lemma session_finish: "keeps session_view (finish ev c)"
  by (auto simp: finish_def
           intro!: keeps_intros session_emit session_set_resume session_b_cleanup)

lemma supervise_view:
  "session_view (snd (supervise ev c resume debug logfile iha bid s)) =
   session_view (snd (guarded_run ev c resume debug logfile iha bid s))"
proof (cases "guarded_run ev c resume debug logfile iha bid s")
  case (Pair r s1)
  show ?thesis
  proof (cases r)
    case (Inl e)
    have "keeps session_view
            (bnd (if_then (\<not> checkpoint_restore c) (b_cleanup ev)) (\<lambda>_. throw e))"
      by (auto intro!: keeps_intros session_b_cleanup)
    then have "session_view
            (snd (bnd (if_then (\<not> checkpoint_restore c) (b_cleanup ev)) (\<lambda>_. throw e) s1)) =
          session_view s1"
      unfolding keeps_def by blast
    with Pair Inl show ?thesis by (simp add: supervise_def try_except_def)
  next
    case (Inr x)
    with Pair show ?thesis by (simp add: supervise_def try_except_def)
  qed
qed

lemma run_and_finish_view:
  "session_view (snd (run_and_finish ev c resume debug logfile iha bid s)) =
   session_view (snd (guarded_run ev c resume debug logfile iha bid s))"
proof (cases "supervise ev c resume debug logfile iha bid s")
  case (Pair r s1)
  have v: "session_view s1 = session_view (snd (guarded_run ev c resume debug logfile iha bid s))"
    using supervise_view[of ev c resume debug logfile iha bid s] Pair by simp
  show ?thesis
  proof (cases r)
    case (Inl e)
    with Pair v show ?thesis by (simp add: run_and_finish_def bnd_def)
  next
    case (Inr x)
    have "session_view (snd (finish ev c s1)) = session_view s1"
      using session_finish by (simp add: keeps_def)
    with Pair Inr v show ?thesis by (simp add: run_and_finish_def bnd_def)
  qed
qed

lemma run_session_unfold:
  assumes "reg_hbr (reg s) = Some h"
  shows "run_session ev vs s =
     (case engine_new ev (v_conf vs) (opt_resume vs) of
        Some e \<Rightarrow> (Inl e, s\<lparr>trace := trace s @ [EngineNew (v_conf vs) (opt_resume vs)]\<rparr>)
      | None \<Rightarrow>
          run_and_finish ev (v_conf vs) (opt_resume vs) (opt_debug vs) (opt_logfile vs)
            (is_hub_address_of (v_conf vs) (reg s)) (backup_id h)
            (s\<lparr>trace := trace s @ [EngineNew (v_conf vs) (opt_resume vs)]\<rparr>))"
  using assms by (simp add: run_session_def Let_def prog_defs split: option.splits)

section \<open>How the supervised run ends\<close>

lemma guarded_run_no_cleanup:
  "count_list (trace (snd (guarded_run ev c resume debug logfile iha bid s))) EngineCleanup =
   count_list (trace s) EngineCleanup"
  by (simp add: guarded_run_def run_body_def run_finally_def prog_defs split: option.splits)

lemma guarded_run_outcome:
  "fst (guarded_run ev c resume debug logfile iha bid s) =
     (case exn_of_finally ev debug iha bid logfile of
        Some e2 \<Rightarrow> Inl e2
      | None \<Rightarrow>
          (case first_exn_of_body ev c resume debug iha bid of
             Some e1 \<Rightarrow> Inl e1
           | None \<Rightarrow> Inr ()))"
  by (simp add: guarded_run_def run_body_def run_finally_def prog_defs
        exn_of_finally_def first_exn_of_body_def capture_closed_by_body_def inprogress_exn_def
      split: option.splits)

lemma supervise_raises:
  "guarded_run ev c resume debug logfile iha bid s = (Inl e, s1) \<Longrightarrow>
   supervise ev c resume debug logfile iha bid s =
     (if checkpoint_restore c then (Inl e, s1)
      else (Inl (case engine_cleanup ev of None \<Rightarrow> e | Some e' \<Rightarrow> e'),
            s1\<lparr>trace := trace s1 @ [EngineCleanup]\<rparr>))"
  by (simp add: supervise_def prog_defs split: option.splits)

lemma run_and_finish_success:
  "guarded_run ev c resume debug logfile iha bid s = (Inr (), s1) \<Longrightarrow>
   run_and_finish ev c resume debug logfile iha bid s =
     (if simulate c
      then (Inr (),
            s1\<lparr>reg := (reg s1)\<lparr>reg_backup_resume_conf := None\<rparr>,
               trace := trace s1 @
                 [Print ''Completed --simulate: Leaving /TKLBAM intact so you can manually inspect it'',
                  SetResumeConf None]\<rparr>)
      else (case engine_cleanup ev of
              Some e \<Rightarrow> (Inl e, s1\<lparr>trace := trace s1 @ [EngineCleanup]\<rparr>)
            | None \<Rightarrow>
                ((case hub_updated_backup ev (address c) of
                    None \<Rightarrow> Inr () | Some e \<Rightarrow> Inl (HubExn e)),
                 s1\<lparr>reg := (reg s1)\<lparr>reg_backup_resume_conf := None\<rparr>,
                    trace := trace s1 @
                      [EngineCleanup, SetResumeConf None, HubUpdatedBackup (address c)]\<rparr>)))"
  by (simp add: run_and_finish_def finish_def supervise_def prog_defs split: option.splits)

lemmas main_defs = main_def prepare_def parse_opt_def upd_conf_def PATH_LOGFILE_def
  lock_step_def check_uploads_def profile_step_def get_profile_def credentials_step_def
  backup_record_step_def negotiate_def resolve_session_def rearm_def run_session_def
  run_and_finish_def supervise_def guarded_run_def run_body_def run_finally_def finish_def
  is_hub_address_of_def get_server_id_def Let_def

lemmas more_sample_defs = hub_unsubscribed_def hub_invalid_def engine_fails_def
  engine_and_stop_fail_def post_hook_fails_def cleanup_fails_def
  stored_conf_def resumable_registry_def hub_conf_def sample_vars_def manual_opts_def

section \<open>Profile negotiation\<close>

lemma get_profile_no_cache:
  assumes "hub_get_new_profile ev (turnkey_version ev) None = Inl e"
    and "reg_profile (reg s) = None"
  shows "get_profile ev s =
           (Inl (HubExn e), s\<lparr>trace := trace s @ [HubGetNewProfile (turnkey_version ev) None]\<rparr>)"
  using assms by (simp add: get_profile_def prog_defs)

lemma get_profile_cached:
  assumes "reg_profile (reg s) = Some p"
    and "hub_get_new_profile ev (turnkey_version ev) (Some (timestamp p)) = Inl e"
  shows "get_profile ev s =
           (Inr (Some p),
            s\<lparr>trace := trace s @
                 [HubGetNewProfile (turnkey_version ev) (Some (timestamp p)),
                  Warning (''using cached profile because of a Hub error: '' @
                           str_hub_error e)]\<rparr>)"
  using assms by (simp add: get_profile_def prog_defs)

lemma get_profile_new:
  assumes "hub_get_new_profile ev (turnkey_version ev)
             (map_option timestamp (reg_profile (reg s))) = Inr (Some q)"
  shows "get_profile ev s =
           (Inr (Some q),
            s\<lparr>reg := (reg s)\<lparr>reg_profile := Some q\<rparr>,
              trace := trace s @
                 [HubGetNewProfile (turnkey_version ev)
                    (map_option timestamp (reg_profile (reg s))),
                  SetProfile q]\<rparr>)"
  using assms by (cases "reg_profile (reg s)") (simp_all add: get_profile_def prog_defs)

lemma profile_step_calls:
  assumes "\<not> truthy_profile (profile c)"
  shows "profile_step ev c s =
           (case get_profile ev s of
              (Inl e, s') \<Rightarrow> (Inl e, s')
            | (Inr p, s') \<Rightarrow> (Inr (c\<lparr>profile := map_option ProfileObj p\<rparr>), s'))"
  using assms by (simp add: profile_step_def bnd_def ret_def split: prod.splits sum.splits)

text \<open>
  Claim C1. A Hub error on the profile request, with no profile in the registry, leaves
  \<open>get_profile\<close> by that same error, and \<open>main\<close>, which calls it outside any \<open>try\<close>
  (lines 231-232), does not catch it. With a profile in the registry the same failure
  prints one warning, writes nothing to the registry and returns the cached profile. A
  successful request that brings a profile stores it in the registry and returns it.
\<close>

theorem c1_profile_negotiation:
  "(hub_get_new_profile ev (turnkey_version ev) None = Inl e \<and> reg_profile (reg s) = None
      \<longrightarrow> get_profile ev s =
            (Inl (HubExn e),
             s\<lparr>trace := trace s @ [HubGetNewProfile (turnkey_version ev) None]\<rparr>)
        \<and> (\<not> truthy_profile (profile c) \<longrightarrow>
             profile_step ev c s =
               (Inl (HubExn e),
                s\<lparr>trace := trace s @ [HubGetNewProfile (turnkey_version ev) None]\<rparr>)))
   \<and> (reg_profile (reg s) = Some p
        \<and> hub_get_new_profile ev (turnkey_version ev) (Some (timestamp p)) = Inl e
      \<longrightarrow> get_profile ev s =
            (Inr (Some p),
             s\<lparr>trace := trace s @
                  [HubGetNewProfile (turnkey_version ev) (Some (timestamp p)),
                   Warning (''using cached profile because of a Hub error: '' @
                            str_hub_error e)]\<rparr>))
   \<and> (hub_get_new_profile ev (turnkey_version ev)
         (map_option timestamp (reg_profile (reg s))) = Inr (Some q)
      \<longrightarrow> get_profile ev s =
            (Inr (Some q),
             s\<lparr>reg := (reg s)\<lparr>reg_profile := Some q\<rparr>,
               trace := trace s @
                  [HubGetNewProfile (turnkey_version ev)
                     (map_option timestamp (reg_profile (reg s))),
                   SetProfile q]\<rparr>))"
proof (intro conjI impI)
  assume h: "hub_get_new_profile ev (turnkey_version ev) None = Inl e \<and>
             reg_profile (reg s) = None"
  then show g: "get_profile ev s =
      (Inl (HubExn e), s\<lparr>trace := trace s @ [HubGetNewProfile (turnkey_version ev) None]\<rparr>)"
    by (simp add: get_profile_no_cache)
  assume "\<not> truthy_profile (profile c)"
  then show "profile_step ev c s =
      (Inl (HubExn e), s\<lparr>trace := trace s @ [HubGetNewProfile (turnkey_version ev) None]\<rparr>)"
    using g by (simp add: profile_step_calls)
next
  assume "reg_profile (reg s) = Some p \<and>
          hub_get_new_profile ev (turnkey_version ev) (Some (timestamp p)) = Inl e"
  then show "get_profile ev s =
      (Inr (Some p),
       s\<lparr>trace := trace s @
            [HubGetNewProfile (turnkey_version ev) (Some (timestamp p)),
             Warning (''using cached profile because of a Hub error: '' @ str_hub_error e)]\<rparr>)"
    by (simp add: get_profile_cached)
next
  assume "hub_get_new_profile ev (turnkey_version ev)
            (map_option timestamp (reg_profile (reg s))) = Inr (Some q)"
  then show "get_profile ev s =
      (Inr (Some q),
       s\<lparr>reg := (reg s)\<lparr>reg_profile := Some q\<rparr>,
         trace := trace s @
            [HubGetNewProfile (turnkey_version ev)
               (map_option timestamp (reg_profile (reg s))),
             SetProfile q]\<rparr>)"
    by (rule get_profile_new)
qed

theorem c1_profile_negotiation_witness:
  "get_profile hub_down (start_state empty_registry) =
     (Inl (HubExn (HubError ''unreachable'')),
      \<lparr>reg = empty_registry, trace = [HubGetNewProfile ''turnkey-core-12.0'' None],
       trap = False\<rparr>)
   \<and> profile_step hub_down sample_conf (start_state empty_registry) =
     (Inl (HubExn (HubError ''unreachable'')),
      \<lparr>reg = empty_registry, trace = [HubGetNewProfile ''turnkey-core-12.0'' None],
       trap = False\<rparr>)
   \<and> get_profile hub_down (start_state cached_registry) =
     (Inr (Some sample_profile),
      \<lparr>reg = cached_registry,
       trace = [HubGetNewProfile ''turnkey-core-12.0'' (Some 100),
                Warning ''using cached profile because of a Hub error: unreachable''],
       trap = False\<rparr>)
   \<and> get_profile hub_up (start_state cached_registry) =
     (Inr (Some newer_profile),
      \<lparr>reg = cached_registry\<lparr>reg_profile := Some newer_profile\<rparr>,
       trace = [HubGetNewProfile ''turnkey-core-12.0'' (Some 100), SetProfile newer_profile],
       trap = False\<rparr>)"
  using c1_profile_negotiation
          [of hub_down "HubError ''unreachable''" "start_state empty_registry" sample_conf
              sample_profile newer_profile]
        c1_profile_negotiation
          [of hub_down "HubError ''unreachable''" "start_state cached_registry" sample_conf
              sample_profile newer_profile]
        c1_profile_negotiation
          [of hub_up "HubError ''unreachable''" "start_state cached_registry" sample_conf
              sample_profile newer_profile]
  by (simp add: sample_defs)

section \<open>Credential negotiation\<close>

lemma credentials_step_not_subscribed:
  assumes "hub_get_credentials ev = Inl e" and "is_not_subscribed e"
  shows "credentials_step ev c s =
           (Inl (SystemExit 1),
            s\<lparr>trace := trace s @ [HubGetCredentials, Error (str_hub_error e)]\<rparr>)"
  using assms by (simp add: credentials_step_def prog_defs)

lemma credentials_step_other_failure:
  assumes "hub_get_credentials ev = Inl e" and "\<not> is_not_subscribed e"
  shows "credentials_step ev c s =
           (Inr (c\<lparr>credentials := reg_credentials (reg s)\<rparr>),
            s\<lparr>trace := trace s @ [HubGetCredentials, Warning (str_hub_error e)]\<rparr>)"
  using assms by (simp add: credentials_step_def prog_defs)

text \<open>
  Claim C2. With no address in \<open>conf\<close> and a failing credential request: a "not
  subscribed" error prints the error and exits with status 1, whatever the registry
  holds; any other Hub error prints one warning, leaves the registry as it is, and the
  run goes on to the backup-record step with \<open>conf.credentials\<close> set to the registry's
  credentials, which are the cached ones or \<open>None\<close>.
\<close>

theorem c2_credential_negotiation:
  "\<not> truthy_address (address c) \<and> hub_get_credentials ev = Inl e \<longrightarrow>
     (is_not_subscribed e \<longrightarrow>
        negotiate ev c s =
          (Inl (SystemExit 1),
           s\<lparr>trace := trace s @ [HubGetCredentials, Error (str_hub_error e)]\<rparr>))
     \<and> (\<not> is_not_subscribed e \<longrightarrow>
        credentials_step ev c s =
          (Inr (c\<lparr>credentials := reg_credentials (reg s)\<rparr>),
           s\<lparr>trace := trace s @ [HubGetCredentials, Warning (str_hub_error e)]\<rparr>)
        \<and> negotiate ev c s =
            backup_record_step ev (c\<lparr>credentials := reg_credentials (reg s)\<rparr>)
              (s\<lparr>trace := trace s @ [HubGetCredentials, Warning (str_hub_error e)]\<rparr>))"
proof (intro impI conjI)
  assume h: "\<not> truthy_address (address c) \<and> hub_get_credentials ev = Inl e"
  {
    assume "is_not_subscribed e"
    with h show "negotiate ev c s =
          (Inl (SystemExit 1),
           s\<lparr>trace := trace s @ [HubGetCredentials, Error (str_hub_error e)]\<rparr>)"
      by (simp add: negotiate_def bnd_def credentials_step_not_subscribed)
  }
  {
    assume n: "\<not> is_not_subscribed e"
    with h show "credentials_step ev c s =
          (Inr (c\<lparr>credentials := reg_credentials (reg s)\<rparr>),
           s\<lparr>trace := trace s @ [HubGetCredentials, Warning (str_hub_error e)]\<rparr>)"
      by (simp add: credentials_step_other_failure)
    with h show "negotiate ev c s =
            backup_record_step ev (c\<lparr>credentials := reg_credentials (reg s)\<rparr>)
              (s\<lparr>trace := trace s @ [HubGetCredentials, Warning (str_hub_error e)]\<rparr>)"
      by (simp add: negotiate_def bnd_def)
  }
qed

theorem c2_credential_negotiation_witness:
  "negotiate hub_unsubscribed sample_conf (start_state cached_registry) =
     (Inl (SystemExit 1),
      \<lparr>reg = cached_registry, trace = [HubGetCredentials, Error ''no subscription''],
       trap = False\<rparr>)
   \<and> credentials_step hub_down sample_conf (start_state cached_registry) =
     (Inr (sample_conf\<lparr>credentials := Some ''cred''\<rparr>),
      \<lparr>reg = cached_registry, trace = [HubGetCredentials, Warning ''unreachable''],
       trap = False\<rparr>)
   \<and> credentials_step hub_down sample_conf (start_state empty_registry) =
     (Inr (sample_conf\<lparr>credentials := None\<rparr>),
      \<lparr>reg = empty_registry, trace = [HubGetCredentials, Warning ''unreachable''],
       trap = False\<rparr>)"
  using c2_credential_negotiation
          [of sample_conf hub_unsubscribed "NotSubscribedError ''no subscription''"
              "start_state cached_registry"]
        c2_credential_negotiation
          [of sample_conf hub_down "HubError ''unreachable''" "start_state cached_registry"]
        c2_credential_negotiation
          [of sample_conf hub_down "HubError ''unreachable''" "start_state empty_registry"]
  by (simp add: sample_defs more_sample_defs)

section \<open>Backup record negotiation\<close>

lemma backup_record_step_invalid:
  assumes "reg_hbr (reg s) = Some h"
    and "hub_get_backup_record ev (backup_id h) = Inl e" and "is_invalid_backup e"
    and "hub_new_backup_record ev (reg_key (reg s)) (turnkey_version ev) (get_server_id ev)
           = Inr h'"
  shows "backup_record_step ev c s =
           (Inr (c\<lparr>address := Some (hbr_address h')\<rparr>),
            s\<lparr>reg := (reg s)\<lparr>reg_hbr := Some h'\<rparr>,
              trace := trace s @
                [HubGetBackupRecord (backup_id h),
                 Warning ''old backup record deleted, creating new ... '',
                 SetHbr None,
                 HubNewBackupRecord (reg_key (reg s)) (turnkey_version ev) (get_server_id ev),
                 SetHbr (Some h')]\<rparr>)"
  using assms by (simp add: backup_record_step_def prog_defs)

lemma backup_record_step_other_failure:
  assumes "reg_hbr (reg s) = Some h"
    and "hub_get_backup_record ev (backup_id h) = Inl e" and "\<not> is_invalid_backup e"
  shows "backup_record_step ev c s =
           (Inr (c\<lparr>address := Some (hbr_address h)\<rparr>),
            s\<lparr>trace := trace s @
                [HubGetBackupRecord (backup_id h), Warning (str_hub_error e)]\<rparr>)"
  using assms by (simp add: backup_record_step_def prog_defs)

lemma backup_record_step_valid:
  assumes "reg_hbr (reg s) = Some h"
    and "hub_get_backup_record ev (backup_id h) = Inr h2"
  shows "backup_record_step ev c s =
           (Inr (c\<lparr>address := Some (hbr_address h2)\<rparr>),
            s\<lparr>reg := (reg s)\<lparr>reg_hbr := Some h2\<rparr>,
              trace := trace s @ [HubGetBackupRecord (backup_id h), SetHbr (Some h2)]\<rparr>)"
  using assms by (simp add: backup_record_step_def prog_defs)

lemma backup_record_step_none:
  assumes "reg_hbr (reg s) = None"
    and "hub_new_backup_record ev (reg_key (reg s)) (turnkey_version ev) (get_server_id ev)
           = Inr h'"
  shows "backup_record_step ev c s =
           (Inr (c\<lparr>address := Some (hbr_address h')\<rparr>),
            s\<lparr>reg := (reg s)\<lparr>reg_hbr := Some h'\<rparr>,
              trace := trace s @
                [HubNewBackupRecord (reg_key (reg s)) (turnkey_version ev) (get_server_id ev),
                 SetHbr (Some h')]\<rparr>)"
  using assms by (simp add: backup_record_step_def prog_defs)

text \<open>
  Claim C3. A cached backup record is revalidated by its id. When the Hub answers with
  the invalid-backup error, the step warns, clears the registry's record, asks the Hub for
  a new record with the registry key, the appliance version and the server id (or
  \<open>None\<close>), and stores the record the Hub returns. On any other Hub error it warns and
  keeps the cached record. With no record in the registry it asks for a new one and
  stores it. In each case \<open>conf.address\<close> becomes the address of the record the
  registry then holds. (A failure of the request for a new record is not caught.)
\<close>

theorem c3_backup_record_negotiation:
  "(reg_hbr (reg s) = Some h \<and> hub_get_backup_record ev (backup_id h) = Inl e
      \<and> is_invalid_backup e
      \<and> hub_new_backup_record ev (reg_key (reg s)) (turnkey_version ev) (get_server_id ev)
          = Inr h'
      \<longrightarrow> backup_record_step ev c s =
           (Inr (c\<lparr>address := Some (hbr_address h')\<rparr>),
            s\<lparr>reg := (reg s)\<lparr>reg_hbr := Some h'\<rparr>,
              trace := trace s @
                [HubGetBackupRecord (backup_id h),
                 Warning ''old backup record deleted, creating new ... '',
                 SetHbr None,
                 HubNewBackupRecord (reg_key (reg s)) (turnkey_version ev) (get_server_id ev),
                 SetHbr (Some h')]\<rparr>))
   \<and> (reg_hbr (reg s) = Some h \<and> hub_get_backup_record ev (backup_id h) = Inl e
      \<and> \<not> is_invalid_backup e
      \<longrightarrow> backup_record_step ev c s =
           (Inr (c\<lparr>address := Some (hbr_address h)\<rparr>),
            s\<lparr>trace := trace s @
                [HubGetBackupRecord (backup_id h), Warning (str_hub_error e)]\<rparr>))
   \<and> (reg_hbr (reg s) = Some h \<and> hub_get_backup_record ev (backup_id h) = Inr h2
      \<longrightarrow> backup_record_step ev c s =
           (Inr (c\<lparr>address := Some (hbr_address h2)\<rparr>),
            s\<lparr>reg := (reg s)\<lparr>reg_hbr := Some h2\<rparr>,
              trace := trace s @ [HubGetBackupRecord (backup_id h), SetHbr (Some h2)]\<rparr>))
   \<and> (reg_hbr (reg s) = None
      \<and> hub_new_backup_record ev (reg_key (reg s)) (turnkey_version ev) (get_server_id ev)
          = Inr h'
      \<longrightarrow> backup_record_step ev c s =
           (Inr (c\<lparr>address := Some (hbr_address h')\<rparr>),
            s\<lparr>reg := (reg s)\<lparr>reg_hbr := Some h'\<rparr>,
              trace := trace s @
                [HubNewBackupRecord (reg_key (reg s)) (turnkey_version ev) (get_server_id ev),
                 SetHbr (Some h')]\<rparr>))"
  by (intro conjI impI)
     (simp_all add: backup_record_step_invalid backup_record_step_other_failure
        backup_record_step_valid backup_record_step_none)

theorem c3_backup_record_negotiation_witness:
  "backup_record_step hub_invalid sample_conf (start_state cached_registry) =
     (Inr (sample_conf\<lparr>address := Some ''s3://bucket/8''\<rparr>),
      \<lparr>reg = cached_registry\<lparr>reg_hbr := Some fresh_hbr\<rparr>,
       trace = [HubGetBackupRecord ''7'',
                Warning ''old backup record deleted, creating new ... '', SetHbr None,
                HubNewBackupRecord ''k'' ''turnkey-core-12.0'' None,
                SetHbr (Some fresh_hbr)],
       trap = False\<rparr>)
   \<and> backup_record_step hub_down sample_conf (start_state cached_registry) =
     (Inr (sample_conf\<lparr>address := Some ''s3://bucket/7''\<rparr>),
      \<lparr>reg = cached_registry,
       trace = [HubGetBackupRecord ''7'', Warning ''unreachable''], trap = False\<rparr>)
   \<and> backup_record_step hub_up sample_conf (start_state cached_registry) =
     (Inr (sample_conf\<lparr>address := Some ''s3://bucket/7''\<rparr>),
      \<lparr>reg = cached_registry,
       trace = [HubGetBackupRecord ''7'', SetHbr (Some sample_hbr)], trap = False\<rparr>)
   \<and> backup_record_step hub_up sample_conf (start_state empty_registry) =
     (Inr (sample_conf\<lparr>address := Some ''s3://bucket/8''\<rparr>),
      \<lparr>reg = empty_registry\<lparr>reg_hbr := Some fresh_hbr\<rparr>,
       trace = [HubNewBackupRecord ''k'' ''turnkey-core-12.0'' None, SetHbr (Some fresh_hbr)],
       trap = False\<rparr>)"
  using c3_backup_record_negotiation
          [of "start_state cached_registry" sample_hbr hub_invalid
              "InvalidBackupError ''no such backup''" fresh_hbr sample_conf sample_hbr]
        c3_backup_record_negotiation
          [of "start_state cached_registry" sample_hbr hub_down
              "HubError ''unreachable''" fresh_hbr sample_conf sample_hbr]
        c3_backup_record_negotiation
          [of "start_state cached_registry" sample_hbr hub_up
              "HubError ''unreachable''" fresh_hbr sample_conf sample_hbr]
        c3_backup_record_negotiation
          [of "start_state empty_registry" sample_hbr hub_up
              "HubError ''unreachable''" fresh_hbr sample_conf sample_hbr]
  by (simp add: sample_defs more_sample_defs get_server_id_def)

section \<open>A manual address\<close>

text \<open>
  Claim C4. When the options carry \<open>--address\<close> with a target (a non-empty text, which
  is what the test \<open>not conf.address\<close> of line 234 takes for an address), the whole run
  makes no call of \<open>get_credentials\<close>, \<open>get_backup_record\<close> or \<open>new_backup_record\<close>
  and writes neither \<open>registry.credentials\<close> nor \<open>registry.hbr\<close>: both entries end
  as they started. The block of lines 234-272 is then the empty statement.
\<close>

theorem c4_manual_address_skips_negotiation:
  assumes "(''--address'', a) \<in> set opts"
    and "\<forall>v. (''--address'', v) \<in> set opts \<longrightarrow> v \<noteq> []"
  shows "filter negotiation_event (trace (snd (main ev (Inr (opts, args)) s))) =
           filter negotiation_event (trace s)
       \<and> reg_credentials (reg (snd (main ev (Inr (opts, args)) s))) = reg_credentials (reg s)
       \<and> reg_hbr (reg (snd (main ev (Inr (opts, args)) s))) = reg_hbr (reg s)
       \<and> (truthy_address (address c) \<longrightarrow> negotiate ev c s = (Inr c, s))"
proof -
  have "keeps negotiation_view (main ev (Inr (opts, args)))"
    unfolding main_def
    by (auto intro!: keeps_bnd prepare_keeps_negotiation[OF assms] neg_run_session)
  then have "negotiation_view (snd (main ev (Inr (opts, args)) s)) = negotiation_view s"
    by (simp add: keeps_def)
  then show ?thesis
    by (simp add: negotiation_view_def negotiate_skipped ret_def)
qed

theorem c4_manual_address_skips_negotiation_witness:
  "filter negotiation_event
     (trace (snd (main hub_up (Inr (manual_opts, [])) (start_state cached_registry)))) = []
   \<and> reg_credentials (reg (snd (main hub_up (Inr (manual_opts, []))
        (start_state cached_registry)))) = Some ''cred''
   \<and> reg_hbr (reg (snd (main hub_up (Inr (manual_opts, []))
        (start_state cached_registry)))) = Some sample_hbr
   \<and> negotiate hub_up (sample_conf\<lparr>address := Some ''file:///mnt/backup''\<rparr>)
        (start_state cached_registry) =
       (Inr (sample_conf\<lparr>address := Some ''file:///mnt/backup''\<rparr>),
        start_state cached_registry)"
  using c4_manual_address_skips_negotiation
          [of "''file:///mnt/backup''" manual_opts hub_up "[]" "start_state cached_registry"
              "sample_conf\<lparr>address := Some ''file:///mnt/backup''\<rparr>"]
  by (simp add: manual_opts_def start_state_def cached_registry_def empty_registry_def
        sample_conf_def)

section \<open>Explicit resume\<close>

lemma resolve_session_resume_simulate:
  "opt_resume vs \<Longrightarrow> simulate (v_conf vs) \<Longrightarrow>
   resolve_session vs s =
     (Inl (SystemExit 1),
      s\<lparr>trace := trace s @ [Error ''--resume and --simulate incompatible'']\<rparr>)"
  by (simp add: resolve_session_def prog_defs)

lemma resolve_session_resume_nothing:
  "opt_resume vs \<Longrightarrow> \<not> simulate (v_conf vs) \<Longrightarrow> reg_backup_resume_conf (reg s) = None \<Longrightarrow>
   resolve_session vs s =
     (Inl (SystemExit 1),
      s\<lparr>trace := trace s @ [Error ''no previous backup session to resume from'']\<rparr>)"
  by (simp add: resolve_session_def prog_defs)

lemma resolve_session_resume_stored:
  "opt_resume vs \<Longrightarrow> \<not> simulate (v_conf vs) \<Longrightarrow>
   reg_backup_resume_conf (reg s) = Some stored \<Longrightarrow>
   resolve_session vs s =
     (Inr (vs\<lparr>v_conf := stored\<rparr>),
      s\<lparr>trace := trace s @ [Print ''ATTEMPTING TO RESUME ABORTED SESSION'']\<rparr>)"
  by (simp add: resolve_session_def prog_defs)

lemma main_resume_simulate:
  assumes "(''--resume'', v) \<in> set opts"
    and "(''-s'', w) \<in> set opts \<or> (''--simulate'', w) \<in> set opts"
  shows "(\<exists>e. fst (main ev (Inr (opts, args)) s) = Inl e)
       \<and> filter engine_new_event (trace (snd (main ev (Inr (opts, args)) s))) =
           filter engine_new_event (trace s)"
proof -
  obtain r s1 where p: "prepare ev opts args s = (r, s1)" by (cases "prepare ev opts args s")
  have "\<exists>e. fst (prepare ev opts args s) = Inl e"
    using prepare_fails[OF assms] by (rule failsD)
  then obtain e where r: "r = Inl e" using p by auto
  have "engine_view s1 = engine_view s"
    using prepare_keeps_engine[of ev opts args] p by (auto simp: keeps_def dest: spec[of _ s])
  then show ?thesis using p r by (simp add: main_bnd engine_view_def)
qed

text \<open>
  Claim C5. With the resume flag set, the session resolver (lines 274-282) prints an error
  and exits with status 1 when \<open>conf.simulate\<close> is set, does the same when the registry
  stores no configuration to resume, and otherwise replaces the whole of \<open>conf\<close> by the
  stored configuration. Whatever the other options are, a run given both \<open>--resume\<close> and
  \<open>-s\<close> or \<open>--simulate\<close> ends by an exception and never constructs the engine.
\<close>

theorem c5_explicit_resume:
  "(opt_resume vs \<and> simulate (v_conf vs) \<longrightarrow>
      resolve_session vs s =
        (Inl (SystemExit 1),
         s\<lparr>trace := trace s @ [Error ''--resume and --simulate incompatible'']\<rparr>))
   \<and> (opt_resume vs \<and> \<not> simulate (v_conf vs) \<and> reg_backup_resume_conf (reg s) = None \<longrightarrow>
      resolve_session vs s =
        (Inl (SystemExit 1),
         s\<lparr>trace := trace s @ [Error ''no previous backup session to resume from'']\<rparr>))
   \<and> (opt_resume vs \<and> \<not> simulate (v_conf vs)
        \<and> reg_backup_resume_conf (reg s) = Some stored \<longrightarrow>
      resolve_session vs s =
        (Inr (vs\<lparr>v_conf := stored\<rparr>),
         s\<lparr>trace := trace s @ [Print ''ATTEMPTING TO RESUME ABORTED SESSION'']\<rparr>))
   \<and> ((''--resume'', v) \<in> set opts
        \<and> ((''-s'', w) \<in> set opts \<or> (''--simulate'', w) \<in> set opts) \<longrightarrow>
      (\<exists>e. fst (main ev (Inr (opts, args)) s) = Inl e)
      \<and> filter engine_new_event (trace (snd (main ev (Inr (opts, args)) s))) =
          filter engine_new_event (trace s))"
proof (intro conjI impI)
  assume "(''--resume'', v) \<in> set opts
        \<and> ((''-s'', w) \<in> set opts \<or> (''--simulate'', w) \<in> set opts)"
  then have m: "(\<exists>e. fst (main ev (Inr (opts, args)) s) = Inl e)
       \<and> filter engine_new_event (trace (snd (main ev (Inr (opts, args)) s))) =
           filter engine_new_event (trace s)"
    by (intro main_resume_simulate) blast+
  from m show "\<exists>e. fst (main ev (Inr (opts, args)) s) = Inl e" by blast
  from m show "filter engine_new_event (trace (snd (main ev (Inr (opts, args)) s))) =
           filter engine_new_event (trace s)" by blast
qed (simp_all add: resolve_session_resume_simulate resolve_session_resume_nothing
       resolve_session_resume_stored)

lemma main_resume_simulate_sample:
  "main hub_up (Inr ([(''--resume'', []), (''--volsize'', ''25''), (''-s'', [])], []))
     (start_state resumable_registry) =
   (Inl (SystemExit 1),
    \<lparr>reg = resumable_registry\<lparr>reg_profile := Some newer_profile,
                               reg_credentials := Some ''cred2''\<rparr>,
     trace = [LockTaken, HubGetNewProfile ''turnkey-core-12.0'' (Some 100),
              SetProfile newer_profile, HubGetCredentials, SetCredentials ''cred2'',
              HubGetBackupRecord ''7'', SetHbr (Some sample_hbr),
              Error ''--resume and --simulate incompatible''],
     trap = False\<rparr>)"
  by (simp add: main_defs prog_defs sample_defs more_sample_defs)

theorem c5_explicit_resume_witness:
  "resolve_session (sample_vars (sample_conf\<lparr>simulate := True\<rparr>) True)
     (start_state resumable_registry) =
     (Inl (SystemExit 1),
      \<lparr>reg = resumable_registry, trace = [Error ''--resume and --simulate incompatible''],
       trap = False\<rparr>)
   \<and> resolve_session (sample_vars sample_conf True) (start_state cached_registry) =
     (Inl (SystemExit 1),
      \<lparr>reg = cached_registry, trace = [Error ''no previous backup session to resume from''],
       trap = False\<rparr>)
   \<and> resolve_session (sample_vars sample_conf True) (start_state resumable_registry) =
     (Inr (sample_vars stored_conf True),
      \<lparr>reg = resumable_registry, trace = [Print ''ATTEMPTING TO RESUME ABORTED SESSION''],
       trap = False\<rparr>)
   \<and> fst (main hub_up (Inr ([(''--resume'', []), (''--volsize'', ''25''), (''-s'', [])], []))
            (start_state resumable_registry)) = Inl (SystemExit 1)
   \<and> filter engine_new_event
        (trace (snd (main hub_up
           (Inr ([(''--resume'', []), (''--volsize'', ''25''), (''-s'', [])], []))
           (start_state resumable_registry)))) = []"
  using c5_explicit_resume
          [of "sample_vars (sample_conf\<lparr>simulate := True\<rparr>) True"
              "start_state resumable_registry" stored_conf "[]"
              "[(''--resume'', []), (''--volsize'', ''25''), (''-s'', [])]" "[]" hub_up "[]"]
        c5_explicit_resume
          [of "sample_vars sample_conf True" "start_state cached_registry" stored_conf "[]"
              "[(''--resume'', []), (''--volsize'', ''25''), (''-s'', [])]" "[]" hub_up "[]"]
        c5_explicit_resume
          [of "sample_vars sample_conf True" "start_state resumable_registry" stored_conf "[]"
              "[(''--resume'', []), (''--volsize'', ''25''), (''-s'', [])]" "[]" hub_up "[]"]
        main_resume_simulate_sample
  by (simp add: sample_defs more_sample_defs)

section \<open>Re-arming the resumable configuration\<close>

text \<open>
  Claim C6. Lines 291-293 write \<open>None\<close> to the registry's resumable-configuration slot
  and then, only when \<open>conf.simulate\<close> is off, write the current configuration to it. So
  whenever the run gets past session resolution, the slot holds exactly the current
  configuration if the run is not simulated and is empty if it is.
\<close>

theorem c6_rearm:
  "rearm c s =
     (Inr (),
      s\<lparr>reg := (reg s)\<lparr>reg_backup_resume_conf := (if simulate c then None else Some c)\<rparr>,
        trace := trace s @
          SetResumeConf None # (if simulate c then [] else [SetResumeConf (Some c)])\<rparr>)
   \<and> (prepare ev opts args s = (Inr vs, s1) \<longrightarrow>
        reg_backup_resume_conf (reg s1) =
          (if simulate (v_conf vs) then None else Some (v_conf vs)))"
proof (intro conjI impI)
  show "rearm c s =
     (Inr (),
      s\<lparr>reg := (reg s)\<lparr>reg_backup_resume_conf := (if simulate c then None else Some c)\<rparr>,
        trace := trace s @
          SetResumeConf None # (if simulate c then [] else [SetResumeConf (Some c)])\<rparr>)"
    by (simp add: rearm_def prog_defs)
next
  assume "prepare ev opts args s = (Inr vs, s1)"
  then show "reg_backup_resume_conf (reg s1) =
          (if simulate (v_conf vs) then None else Some (v_conf vs))"
    using prepare_rearmed by (rule endsD[rotated])
qed

lemma prepare_sample:
  "prepare hub_up manual_opts [''/etc/foo''] (start_state cached_registry) =
     (Inr (sample_vars
             (sample_conf\<lparr>secretfile := ''/var/lib/tklbam/secret'',
                          profile := Some (ProfileObj newer_profile),
                          address := Some ''file:///mnt/backup'',
                          overrides := [''/etc/foo'']\<rparr>) False),
      \<lparr>reg = cached_registry
         \<lparr>reg_profile := Some newer_profile,
          reg_backup_resume_conf :=
            Some (sample_conf\<lparr>secretfile := ''/var/lib/tklbam/secret'',
                               profile := Some (ProfileObj newer_profile),
                               address := Some ''file:///mnt/backup'',
                               overrides := [''/etc/foo'']\<rparr>)\<rparr>,
       trace = [LockTaken, HubGetNewProfile ''turnkey-core-12.0'' (Some 100),
                SetProfile newer_profile, SetResumeConf None,
                SetResumeConf
                  (Some (sample_conf\<lparr>secretfile := ''/var/lib/tklbam/secret'',
                                      profile := Some (ProfileObj newer_profile),
                                      address := Some ''file:///mnt/backup'',
                                      overrides := [''/etc/foo'']\<rparr>))],
       trap = False\<rparr>)"
  by (simp add: main_defs prog_defs sample_defs more_sample_defs)

theorem c6_rearm_witness:
  "rearm (sample_conf\<lparr>simulate := True\<rparr>) (start_state resumable_registry) =
     (Inr (),
      \<lparr>reg = resumable_registry\<lparr>reg_backup_resume_conf := None\<rparr>,
       trace = [SetResumeConf None], trap = False\<rparr>)
   \<and> rearm sample_conf (start_state resumable_registry) =
     (Inr (),
      \<lparr>reg = resumable_registry\<lparr>reg_backup_resume_conf := Some sample_conf\<rparr>,
       trace = [SetResumeConf None, SetResumeConf (Some sample_conf)], trap = False\<rparr>)
   \<and> reg_backup_resume_conf
       (reg (snd (prepare hub_up manual_opts [''/etc/foo''] (start_state cached_registry)))) =
       Some (sample_conf\<lparr>secretfile := ''/var/lib/tklbam/secret'',
                          profile := Some (ProfileObj newer_profile),
                          address := Some ''file:///mnt/backup'',
                          overrides := [''/etc/foo'']\<rparr>)"
  using c6_rearm
          [of "sample_conf\<lparr>simulate := True\<rparr>" "start_state resumable_registry"
              hub_up manual_opts "[''/etc/foo'']" 
              "sample_vars
                 (sample_conf\<lparr>secretfile := ''/var/lib/tklbam/secret'',
                              profile := Some (ProfileObj newer_profile),
                              address := Some ''file:///mnt/backup'',
                              overrides := [''/etc/foo'']\<rparr>) False"
              "snd (prepare hub_up manual_opts [''/etc/foo''] (start_state cached_registry))"]
        c6_rearm
          [of sample_conf "start_state resumable_registry"
              hub_up manual_opts "[''/etc/foo'']" 
              "sample_vars
                 (sample_conf\<lparr>secretfile := ''/var/lib/tklbam/secret'',
                              profile := Some (ProfileObj newer_profile),
                              address := Some ''file:///mnt/backup'',
                              overrides := [''/etc/foo'']\<rparr>) False"
              "snd (prepare hub_up manual_opts [''/etc/foo''] (start_state cached_registry))"]
        prepare_sample
  by (simp add: sample_defs more_sample_defs)

section \<open>In-progress notifications\<close>

text \<open>
  Claim C7, as the claim states it, fails on a simulated run: with \<open>-s\<close> and no
  \<open>--address\<close> the address is the one negotiated with the Hub, the engine runs, and the
  Hub is sent no in-progress notification at all, because \<open>is_hub_address\<close> (line 295)
  starts with \<open>not conf.simulate\<close>.
\<close>

theorem c7_counterexample:
  "fst (main hub_up (Inr ([(''-s'', [])], [])) (start_state cached_registry)) = Inr ()
   \<and> filter negotiation_event
       (trace (snd (main hub_up (Inr ([(''-s'', [])], [])) (start_state cached_registry)))) =
       [HubGetCredentials, SetCredentials ''cred2'', HubGetBackupRecord ''7'',
        SetHbr (Some sample_hbr)]
   \<and> filter inprogress_or_run
       (trace (snd (main hub_up (Inr ([(''-s'', [])], [])) (start_state cached_registry)))) =
       [EngineRun False]"
  by (simp add: main_defs prog_defs sample_defs)

text \<open>
  Claim C7, amended. For a run that reaches line 295 with a backup record in the
  registry and constructs the engine, the notifications depend on \<open>is_hub_address\<close>:
  simulate off and the record's address equal to \<open>conf.address\<close>. When it holds, the
  notification that the record's id is in progress is sent once the pre hook has
  returned, before the engine runs, and the \<open>finally\<close> block sends the notification that
  the same id is no longer in progress, last, on every way out of the \<open>try\<close> block
  (failing hook, failing notification, failing engine, or success). When it does not
  hold, as in every simulated run, neither notification is sent. The equation gives the
  notifications and the engine run the session adds to the trace, in order.
\<close>

theorem c7_inprogress_notifications:
  assumes "reg_hbr (reg s) = Some h"
  shows "filter inprogress_or_run (trace (snd (run_session ev vs s))) =
     filter inprogress_or_run (trace s) @
     (if engine_new ev (v_conf vs) (opt_resume vs) \<noteq> None then []
      else if is_hub_address_of (v_conf vs) (reg s)
      then (if hooks_pre ev = None
            then HubSetBackupInprogress (backup_id h) True #
                 (if hub_set_backup_inprogress ev (backup_id h) True = None
                  then [EngineRun (opt_debug vs)] else [])
            else []) @
           [HubSetBackupInprogress (backup_id h) False]
      else (if hooks_pre ev = None then [EngineRun (opt_debug vs)] else []))"
proof (cases "engine_new ev (v_conf vs) (opt_resume vs)")
  case (Some e)
  then show ?thesis
    unfolding run_session_unfold[OF assms] by simp
next
  case None
  have "session_view (s\<lparr>trace := trace s @ [EngineNew (v_conf vs) (opt_resume vs)]\<rparr>) =
        session_view s"
    by (simp add: session_view_def)
  then have "session_view (snd (run_session ev vs s)) =
     session_view s @
     (if is_hub_address_of (v_conf vs) (reg s)
      then (if hooks_pre ev = None
            then HubSetBackupInprogress (backup_id h) True #
                 (if hub_set_backup_inprogress ev (backup_id h) True = None
                  then [EngineRun (opt_debug vs)] else [])
            else []) @
           [HubSetBackupInprogress (backup_id h) False]
      else (if hooks_pre ev = None then [EngineRun (opt_debug vs)] else []))"
    unfolding run_session_unfold[OF assms] using None
    by (simp add: run_and_finish_view guarded_run_view)
  then show ?thesis using None by (simp add: session_view_def)
qed

theorem c7_inprogress_notifications_witness:
  "filter inprogress_or_run
     (trace (snd (run_session hub_up (sample_vars hub_conf False)
                    (start_state cached_registry)))) =
     [HubSetBackupInprogress ''7'' True, EngineRun False, HubSetBackupInprogress ''7'' False]
   \<and> filter inprogress_or_run
     (trace (snd (run_session engine_fails (sample_vars hub_conf False)
                    (start_state cached_registry)))) =
     [HubSetBackupInprogress ''7'' True, EngineRun False, HubSetBackupInprogress ''7'' False]
   \<and> filter inprogress_or_run
     (trace (snd (run_session hub_up (sample_vars (hub_conf\<lparr>simulate := True\<rparr>) False)
                    (start_state cached_registry)))) =
     [EngineRun False]"
  using c7_inprogress_notifications
          [of "start_state cached_registry" sample_hbr hub_up "sample_vars hub_conf False"]
        c7_inprogress_notifications
          [of "start_state cached_registry" sample_hbr engine_fails
              "sample_vars hub_conf False"]
        c7_inprogress_notifications
          [of "start_state cached_registry" sample_hbr hub_up
              "sample_vars (hub_conf\<lparr>simulate := True\<rparr>) False"]
  by (simp add: sample_defs more_sample_defs is_hub_address_of_def)

section \<open>Failure and success of the supervised run\<close>

text \<open>
  Claim C8, as the claim states it, fails when the \<open>finally\<close> block raises: here the
  engine run fails, the Hub then fails on the notification that the backup is no longer
  in progress, the cleanup is called, and the caller gets the Hub error, not the
  exception of the engine.
\<close>

theorem c8_counterexample:
  "engine_run engine_and_stop_fail hub_conf False False = Some (OtherExn ''duplicity failed'')
   \<and> fst (main engine_and_stop_fail (Inr ([], [])) (start_state cached_registry)) =
       Inl (HubExn (HubError ''unreachable''))
   \<and> filter inprogress_or_run
       (trace (snd (main engine_and_stop_fail (Inr ([], [])) (start_state cached_registry)))) =
       [HubSetBackupInprogress ''7'' True, EngineRun False, HubSetBackupInprogress ''7'' False]
   \<and> count_list
       (trace (snd (main engine_and_stop_fail (Inr ([], [])) (start_state cached_registry))))
       EngineCleanup = 1"
  by (simp add: main_defs prog_defs sample_defs more_sample_defs)

text \<open>
  Claim C8, amended. Whatever exception leaves the block of lines 300-326, the \<open>except\<close>
  clause calls the engine's cleanup exactly when \<open>conf.checkpoint_restore\<close> is not set,
  and the caller gets that same exception, unless the cleanup itself raises, whose
  exception then takes its place. The block never calls the cleanup. The exception that
  leaves the block is the first one of the pre hook, the start notification, the engine
  run and the post hook only when the \<open>finally\<close> block raises nothing: an exception of
  the stop notification or of the log append replaces it.
\<close>

theorem c8_failure_path:
  "(guarded_run ev c resume debug logfile iha bid s = (Inl e, s1) \<longrightarrow>
      supervise ev c resume debug logfile iha bid s =
        (if checkpoint_restore c then (Inl e, s1)
         else (Inl (case engine_cleanup ev of None \<Rightarrow> e | Some e' \<Rightarrow> e'),
               s1\<lparr>trace := trace s1 @ [EngineCleanup]\<rparr>)))
   \<and> count_list (trace (snd (guarded_run ev c resume debug logfile iha bid s))) EngineCleanup
       = count_list (trace s) EngineCleanup
   \<and> fst (guarded_run ev c resume debug logfile iha bid s) =
       (case exn_of_finally ev debug iha bid logfile of
          Some e2 \<Rightarrow> Inl e2
        | None \<Rightarrow>
            (case first_exn_of_body ev c resume debug iha bid of
               Some e1 \<Rightarrow> Inl e1
             | None \<Rightarrow> Inr ()))"
  by (intro conjI impI)
     (simp_all add: supervise_raises guarded_run_no_cleanup guarded_run_outcome)

lemma guarded_run_engine_fails_sample:
  "guarded_run engine_fails c False False PATH_LOGFILE True ''7'' (start_state cached_registry) =
     (Inl (OtherExn ''duplicity failed''),
      \<lparr>reg = cached_registry,
       trace = [TrapOpen, HookPre, HubSetBackupInprogress ''7'' True, EngineRun False,
                HubSetBackupInprogress ''7'' False, TrapClose, LogAppend PATH_LOGFILE],
       trap = True\<rparr>)"
  by (simp add: guarded_run_def run_body_def run_finally_def prog_defs
        engine_fails_def hub_up_def start_state_def)

lemma guarded_run_stop_fails_sample:
  "guarded_run engine_and_stop_fail c False False PATH_LOGFILE True ''7''
     (start_state cached_registry) =
     (Inl (HubExn (HubError ''unreachable'')),
      \<lparr>reg = cached_registry,
       trace = [TrapOpen, HookPre, HubSetBackupInprogress ''7'' True, EngineRun False,
                HubSetBackupInprogress ''7'' False],
       trap = True\<rparr>)"
  by (simp add: guarded_run_def run_body_def run_finally_def prog_defs
        engine_and_stop_fail_def engine_fails_def hub_up_def start_state_def)

theorem c8_failure_path_witness:
  "supervise engine_fails hub_conf False False PATH_LOGFILE True ''7''
     (start_state cached_registry) =
     (Inl (OtherExn ''duplicity failed''),
      \<lparr>reg = cached_registry,
       trace = [TrapOpen, HookPre, HubSetBackupInprogress ''7'' True, EngineRun False,
                HubSetBackupInprogress ''7'' False, TrapClose, LogAppend PATH_LOGFILE,
                EngineCleanup],
       trap = True\<rparr>)
   \<and> supervise engine_fails (hub_conf\<lparr>checkpoint_restore := True\<rparr>) False False PATH_LOGFILE
       True ''7'' (start_state cached_registry) =
     (Inl (OtherExn ''duplicity failed''),
      \<lparr>reg = cached_registry,
       trace = [TrapOpen, HookPre, HubSetBackupInprogress ''7'' True, EngineRun False,
                HubSetBackupInprogress ''7'' False, TrapClose, LogAppend PATH_LOGFILE],
       trap = True\<rparr>)
   \<and> supervise engine_and_stop_fail hub_conf False False PATH_LOGFILE True ''7''
       (start_state cached_registry) =
     (Inl (HubExn (HubError ''unreachable'')),
      \<lparr>reg = cached_registry,
       trace = [TrapOpen, HookPre, HubSetBackupInprogress ''7'' True, EngineRun False,
                HubSetBackupInprogress ''7'' False, EngineCleanup],
       trap = True\<rparr>)"
  using c8_failure_path
          [of engine_fails hub_conf False False PATH_LOGFILE True "''7''"
              "start_state cached_registry" "OtherExn ''duplicity failed''"
              "snd (guarded_run engine_fails hub_conf False False PATH_LOGFILE True ''7''
                      (start_state cached_registry))"]
        c8_failure_path
          [of engine_fails "hub_conf\<lparr>checkpoint_restore := True\<rparr>" False False PATH_LOGFILE
              True "''7''"
              "start_state cached_registry" "OtherExn ''duplicity failed''"
              "snd (guarded_run engine_fails (hub_conf\<lparr>checkpoint_restore := True\<rparr>) False
                      False PATH_LOGFILE True ''7'' (start_state cached_registry))"]
        c8_failure_path
          [of engine_and_stop_fail hub_conf False False PATH_LOGFILE True "''7''"
              "start_state cached_registry" "HubExn (HubError ''unreachable'')"
              "snd (guarded_run engine_and_stop_fail hub_conf False False PATH_LOGFILE True ''7''
                      (start_state cached_registry))"]
        guarded_run_engine_fails_sample [of hub_conf]
        guarded_run_engine_fails_sample [of "hub_conf\<lparr>checkpoint_restore := True\<rparr>"]
        guarded_run_stop_fails_sample [of hub_conf]
  by (simp add: hub_conf_def sample_conf_def engine_fails_def engine_and_stop_fail_def
        hub_up_def)

text \<open>
  Claim C9, as the claim states it, fails when something raises after the engine run has
  returned: here, in a simulated run, the engine run returns, the post hook then fails,
  and the \<open>except\<close> clause calls the engine's cleanup; the message about \<open>/TKLBAM\<close> is
  not printed.
\<close>

theorem c9_counterexample:
  "engine_run post_hook_fails hub_conf False False = None
   \<and> fst (main post_hook_fails (Inr ([(''-s'', [])], [])) (start_state cached_registry)) =
       Inl (OtherExn ''hook failed'')
   \<and> filter inprogress_or_run
       (trace (snd (main post_hook_fails (Inr ([(''-s'', [])], []))
                      (start_state cached_registry)))) = [EngineRun False]
   \<and> count_list
       (trace (snd (main post_hook_fails (Inr ([(''-s'', [])], []))
                      (start_state cached_registry))))
       EngineCleanup = 1
   \<and> count_list
       (trace (snd (main post_hook_fails (Inr ([(''-s'', [])], []))
                      (start_state cached_registry))))
       (Print ''Completed --simulate: Leaving /TKLBAM intact so you can manually inspect it'')
       = 0"
  by (simp add: main_defs prog_defs sample_defs more_sample_defs)

text \<open>
  Claim C9, amended. When the whole block of lines 300-326 ends without an exception,
  that is when the pre hook, the start notification, the engine run, the post hook, the
  stop notification and the log append all return: a simulated run prints the message
  about \<open>/TKLBAM\<close>, calls no cleanup, empties the registry's resumable-configuration
  slot and sends no \<open>updated_backup\<close>; a run that is not simulated calls the engine's
  cleanup and, when the cleanup returns, empties the slot and sends \<open>updated_backup\<close>
  for \<open>conf.address\<close>.
\<close>

theorem c9_success_path:
  "(guarded_run ev c resume debug logfile iha bid s = (Inr (), s1) \<longrightarrow>
      run_and_finish ev c resume debug logfile iha bid s =
        (if simulate c
         then (Inr (),
               s1\<lparr>reg := (reg s1)\<lparr>reg_backup_resume_conf := None\<rparr>,
                  trace := trace s1 @
                    [Print ''Completed --simulate: Leaving /TKLBAM intact so you can manually inspect it'',
                     SetResumeConf None]\<rparr>)
         else (case engine_cleanup ev of
                 Some e \<Rightarrow> (Inl e, s1\<lparr>trace := trace s1 @ [EngineCleanup]\<rparr>)
               | None \<Rightarrow>
                   ((case hub_updated_backup ev (address c) of
                       None \<Rightarrow> Inr () | Some e \<Rightarrow> Inl (HubExn e)),
                    s1\<lparr>reg := (reg s1)\<lparr>reg_backup_resume_conf := None\<rparr>,
                       trace := trace s1 @
                         [EngineCleanup, SetResumeConf None,
                          HubUpdatedBackup (address c)]\<rparr>))))
   \<and> count_list (trace (snd (guarded_run ev c resume debug logfile iha bid s))) EngineCleanup
       = count_list (trace s) EngineCleanup
   \<and> (fst (guarded_run ev c resume debug logfile iha bid s) = Inr ()) =
       (first_exn_of_body ev c resume debug iha bid = None
        \<and> exn_of_finally ev debug iha bid logfile = None)"
proof (intro conjI impI)
  show "(fst (guarded_run ev c resume debug logfile iha bid s) = Inr ()) =
       (first_exn_of_body ev c resume debug iha bid = None
        \<and> exn_of_finally ev debug iha bid logfile = None)"
    unfolding guarded_run_outcome by (simp split: option.splits)
qed (simp_all add: run_and_finish_success guarded_run_no_cleanup)

lemma guarded_run_sample:
  "guarded_run hub_up c False False PATH_LOGFILE iha ''7'' (start_state resumable_registry) =
     (Inr (),
      \<lparr>reg = resumable_registry,
       trace = [TrapOpen, HookPre] @
               (if iha then [HubSetBackupInprogress ''7'' True] else []) @
               [EngineRun False, HookPost] @
               (if iha then [HubSetBackupInprogress ''7'' False] else []) @
               [TrapClose, LogAppend PATH_LOGFILE],
       trap = True\<rparr>)"
  by (simp add: guarded_run_def run_body_def run_finally_def prog_defs
        hub_up_def start_state_def)

lemma guarded_run_cleanup_fails_sample:
  "guarded_run cleanup_fails c False False PATH_LOGFILE True ''7''
     (start_state resumable_registry) =
     (Inr (),
      \<lparr>reg = resumable_registry,
       trace = [TrapOpen, HookPre, HubSetBackupInprogress ''7'' True, EngineRun False,
                HookPost, HubSetBackupInprogress ''7'' False, TrapClose,
                LogAppend PATH_LOGFILE],
       trap = True\<rparr>)"
  by (simp add: guarded_run_def run_body_def run_finally_def prog_defs
        cleanup_fails_def hub_up_def start_state_def)

theorem c9_success_path_witness:
  "run_and_finish hub_up (hub_conf\<lparr>simulate := True\<rparr>) False False PATH_LOGFILE False ''7''
     (start_state resumable_registry) =
     (Inr (),
      \<lparr>reg = resumable_registry\<lparr>reg_backup_resume_conf := None\<rparr>,
       trace = [TrapOpen, HookPre, EngineRun False, HookPost, TrapClose,
                LogAppend PATH_LOGFILE,
                Print ''Completed --simulate: Leaving /TKLBAM intact so you can manually inspect it'',
                SetResumeConf None],
       trap = True\<rparr>)
   \<and> run_and_finish hub_up hub_conf False False PATH_LOGFILE True ''7''
       (start_state resumable_registry) =
     (Inr (),
      \<lparr>reg = resumable_registry\<lparr>reg_backup_resume_conf := None\<rparr>,
       trace = [TrapOpen, HookPre, HubSetBackupInprogress ''7'' True, EngineRun False,
                HookPost, HubSetBackupInprogress ''7'' False, TrapClose,
                LogAppend PATH_LOGFILE, EngineCleanup, SetResumeConf None,
                HubUpdatedBackup (Some ''s3://bucket/7'')],
       trap = True\<rparr>)
   \<and> run_and_finish cleanup_fails hub_conf False False PATH_LOGFILE True ''7''
       (start_state resumable_registry) =
     (Inl (OtherExn ''cleanup failed''),
      \<lparr>reg = resumable_registry,
       trace = [TrapOpen, HookPre, HubSetBackupInprogress ''7'' True, EngineRun False,
                HookPost, HubSetBackupInprogress ''7'' False, TrapClose,
                LogAppend PATH_LOGFILE, EngineCleanup],
       trap = True\<rparr>)"
  using c9_success_path
          [of hub_up "hub_conf\<lparr>simulate := True\<rparr>" False False PATH_LOGFILE False "''7''"
              "start_state resumable_registry"
              "snd (guarded_run hub_up (hub_conf\<lparr>simulate := True\<rparr>) False False
                      PATH_LOGFILE False ''7'' (start_state resumable_registry))"]
        c9_success_path
          [of hub_up hub_conf False False PATH_LOGFILE True "''7''"
              "start_state resumable_registry"
              "snd (guarded_run hub_up hub_conf False False PATH_LOGFILE True ''7''
                      (start_state resumable_registry))"]
        c9_success_path
          [of cleanup_fails hub_conf False False PATH_LOGFILE True "''7''"
              "start_state resumable_registry"
              "snd (guarded_run cleanup_fails hub_conf False False PATH_LOGFILE True ''7''
                      (start_state resumable_registry))"]
        guarded_run_sample [of "hub_conf\<lparr>simulate := True\<rparr>" False]
        guarded_run_sample [of hub_conf True]
        guarded_run_cleanup_fails_sample [of hub_conf]
  by (simp add: hub_conf_def sample_conf_def hub_up_def cleanup_fails_def)

section \<open>A manual address and no backup record\<close>

text \<open>
  Claim C10. When the options carry \<open>--address\<close> with a target and the registry holds
  no backup record, no run constructs the engine and every run ends by an exception:
  the negotiation that would store a record is skipped, so a run that gets as far as
  line 296 fails there on \<open>registry.hbr.backup_id\<close> with the attribute error, which
  nothing catches. (A run stopped before that line, by a usage error, the lock, the
  profile or the session resolver, ends by that earlier exit.)
\<close>

theorem c10_manual_address_without_record:
  assumes "(''--address'', a) \<in> set opts"
    and "\<forall>v. (''--address'', v) \<in> set opts \<longrightarrow> v \<noteq> []"
    and "reg_hbr (reg s) = None"
  shows "(\<exists>e. fst (main ev (Inr (opts, args)) s) = Inl e)
       \<and> filter engine_new_event (trace (snd (main ev (Inr (opts, args)) s))) =
           filter engine_new_event (trace s)
       \<and> (\<forall>vs s1. prepare ev opts args s = (Inr vs, s1) \<longrightarrow>
            main ev (Inr (opts, args)) s = (Inl (AttributeError ''backup_id''), s1))"
proof -
  obtain r s1 where p: "prepare ev opts args s = (r, s1)" by (cases "prepare ev opts args s")
  have "negotiation_view s1 = negotiation_view s"
    using prepare_keeps_negotiation[OF assms(1,2), of ev args] p
    by (auto simp: keeps_def dest: spec[of _ s])
  then have hbr: "reg_hbr (reg s1) = None"
    using assms(3) by (simp add: negotiation_view_def)
  have eng: "engine_view s1 = engine_view s"
    using prepare_keeps_engine[of ev opts args] p by (auto simp: keeps_def dest: spec[of _ s])
  show ?thesis
  proof (cases r)
    case (Inl e)
    with p eng show ?thesis by (simp add: main_bnd engine_view_def)
  next
    case (Inr vs)
    with p eng hbr show ?thesis
      by (simp add: main_bnd run_session_no_record engine_view_def)
  qed
qed

lemma prepare_sample_no_record:
  "prepare hub_up manual_opts [] (start_state empty_registry) =
     (Inr (sample_vars
             (sample_conf\<lparr>secretfile := ''/var/lib/tklbam/secret'',
                          profile := Some (ProfileObj newer_profile),
                          address := Some ''file:///mnt/backup''\<rparr>) False),
      \<lparr>reg = empty_registry
         \<lparr>reg_profile := Some newer_profile,
          reg_backup_resume_conf :=
            Some (sample_conf\<lparr>secretfile := ''/var/lib/tklbam/secret'',
                               profile := Some (ProfileObj newer_profile),
                               address := Some ''file:///mnt/backup''\<rparr>)\<rparr>,
       trace = [LockTaken, HubGetNewProfile ''turnkey-core-12.0'' None,
                SetProfile newer_profile, SetResumeConf None,
                SetResumeConf
                  (Some (sample_conf\<lparr>secretfile := ''/var/lib/tklbam/secret'',
                                      profile := Some (ProfileObj newer_profile),
                                      address := Some ''file:///mnt/backup''\<rparr>))],
       trap = False\<rparr>)"
  by (simp add: main_defs prog_defs sample_defs more_sample_defs)

theorem c10_manual_address_without_record_witness:
  "main hub_up (Inr (manual_opts, [])) (start_state empty_registry) =
     (Inl (AttributeError ''backup_id''),
      \<lparr>reg = empty_registry
         \<lparr>reg_profile := Some newer_profile,
          reg_backup_resume_conf :=
            Some (sample_conf\<lparr>secretfile := ''/var/lib/tklbam/secret'',
                               profile := Some (ProfileObj newer_profile),
                               address := Some ''file:///mnt/backup''\<rparr>)\<rparr>,
       trace = [LockTaken, HubGetNewProfile ''turnkey-core-12.0'' None,
                SetProfile newer_profile, SetResumeConf None,
                SetResumeConf
                  (Some (sample_conf\<lparr>secretfile := ''/var/lib/tklbam/secret'',
                                      profile := Some (ProfileObj newer_profile),
                                      address := Some ''file:///mnt/backup''\<rparr>))],
       trap = False\<rparr>)"
proof -
  have a: "(''--address'', ''file:///mnt/backup'') \<in> set manual_opts"
    by (simp add: manual_opts_def)
  have b: "\<forall>v. (''--address'', v) \<in> set manual_opts \<longrightarrow> v \<noteq> []"
    by (simp add: manual_opts_def)
  have c: "reg_hbr (reg (start_state empty_registry)) = None"
    by (simp add: start_state_def empty_registry_def)
  from c10_manual_address_without_record[OF a b c, of hub_up "[]"] prepare_sample_no_record
  show ?thesis by blast
qed

end
